theory Spec2Isabelle
  imports Main
begin

section \<open>Python values and built-ins that mesh2inp.py relies on\<close>

text \<open>
  The script raises no exception of its own except the \<open>ValueError\<close> of \<open>chunks\<close>;
  every other failure comes from a built-in: \<open>list.index\<close>, \<open>int\<close>, \<open>float\<close> and tuple
  unpacking raise \<open>ValueError\<close>, subscripting raises \<open>IndexError\<close>, \<open>open\<close> of a missing
  file raises \<open>FileNotFoundError\<close>, \<open>sys.exit(1)\<close> raises \<open>SystemExit\<close>. Nothing is caught,
  so an exception is the \<open>Inl\<close> of a result.
\<close>

datatype pyerror = ValueError | IndexError | FileNotFoundError | SystemExit int

fun and_then :: "pyerror + 'a \<Rightarrow> ('a \<Rightarrow> pyerror + 'b) \<Rightarrow> pyerror + 'b" where
  "and_then (Inl e) f = Inl e"
| "and_then (Inr v) f = f v"

text \<open>A comprehension whose element expression may raise: left to right, first failure wins.\<close>

fun map_raising :: "('a \<Rightarrow> pyerror + 'b) \<Rightarrow> 'a list \<Rightarrow> pyerror + 'b list" where
  "map_raising f [] = Inr []"
| "map_raising f (x # xs) =
     and_then (f x) (\<lambda>y. and_then (map_raising f xs) (\<lambda>ys. Inr (y # ys)))"

text \<open>\<open>xs[i]\<close> for the non-negative literal indices the script uses.\<close>

definition getitem :: "'a list \<Rightarrow> nat \<Rightarrow> pyerror + 'a" where
  "getitem xs i = (if i < length xs then Inr (xs ! i) else Inl IndexError)"

text \<open>
  \<open>xs[start:stop]\<close>: a negative bound counts from the end, both bounds are clamped to
  the length, and the slice is empty when the bounds cross. It never raises.
\<close>

definition slice_bound :: "nat \<Rightarrow> int \<Rightarrow> nat" where
  "slice_bound n i = (if i < 0 then nat (max (i + int n) 0) else min (nat i) n)"

definition py_slice :: "'a list \<Rightarrow> int \<Rightarrow> int \<Rightarrow> 'a list" where
  "py_slice xs start stop =
     (let a = slice_bound (length xs) start; b = slice_bound (length xs) stop
      in take (b - a) (drop a xs))"

text \<open>\<open>enumerate(xs, start=1)\<close>.\<close>

definition enumerate1 :: "'a list \<Rightarrow> (int \<times> 'a) list" where
  "enumerate1 xs = zip (map int [1 ..< Suc (length xs)]) xs"

subsection \<open>Characters and strings\<close>

text \<open>
  A \<open>str\<close> is modelled as a list of 8-bit characters (code points below 256). On these,
  \<open>str.isspace\<close> holds for the characters below, and the decimal digits are \<open>0\<close> to \<open>9\<close>.
\<close>

definition isspace :: "char \<Rightarrow> bool" where
  "isspace c \<longleftrightarrow> c \<in> set [CHR 0x09, CHR 0x0A, CHR 0x0B, CHR 0x0C, CHR 0x0D,
     CHR 0x1C, CHR 0x1D, CHR 0x1E, CHR 0x1F, CHR 0x20, CHR 0x85, CHR 0xA0]"

definition isdigit :: "char \<Rightarrow> bool" where
  "isdigit c \<longleftrightarrow> c \<in> set ''0123456789''"

definition digit_char :: "nat \<Rightarrow> char" where
  "digit_char d = ''0123456789'' ! d"

definition digit_value :: "char \<Rightarrow> nat" where
  "digit_value c = length (takeWhile (\<lambda>d. d \<noteq> c) ''0123456789'')"

text \<open>\<open>s.strip()\<close> and \<open>s.split()\<close> with no argument: whitespace is what \<open>isspace\<close> says.\<close>

definition strip :: "string \<Rightarrow> string" where
  "strip s = rev (dropWhile isspace (rev (dropWhile isspace s)))"

fun split_from :: "string \<Rightarrow> string \<Rightarrow> string list" where
  "split_from cur [] = (if cur = [] then [] else [cur])"
| "split_from cur (c # cs) =
     (if isspace c then (if cur = [] then split_from [] cs else cur # split_from [] cs)
      else split_from (cur @ [c]) cs)"

definition split_ws :: "string \<Rightarrow> string list" where
  "split_ws s = split_from [] s"

definition startswith :: "string \<Rightarrow> string \<Rightarrow> bool" where
  "startswith s p \<longleftrightarrow> take (length p) s = p"

definition endswith :: "string \<Rightarrow> string \<Rightarrow> bool" where
  "endswith s p \<longleftrightarrow> length p \<le> length s \<and> drop (length s - length p) s = p"

text \<open>\<open>sep.join(parts)\<close>.\<close>

fun join :: "string \<Rightarrow> string list \<Rightarrow> string" where
  "join sep [] = []"
| "join sep [p] = p"
| "join sep (p # q # ps) = p @ sep @ join sep (q # ps)"

text \<open>\<open>str(i)\<close> of an \<open>int\<close>: decimal, a minus sign for a negative number.\<close>

fun str_nat :: "nat \<Rightarrow> string" where
  "str_nat n = (if n < 10 then [digit_char n] else str_nat (n div 10) @ [digit_char (n mod 10)])"

declare str_nat.simps [simp del]

definition str_int :: "int \<Rightarrow> string" where
  "str_int i = (if i < 0 then CHR ''-'' # str_nat (nat (- i)) else str_nat (nat i))"

text \<open>
  \<open>int(s)\<close> on a \<open>str\<close>, base 10: surrounding whitespace is ignored; then an optional sign
  and decimal digits, where single underscores may stand between digits. Anything else
  raises \<open>ValueError\<close>. \<open>decimal\<close> reads a digit string.
\<close>

definition decimal :: "string \<Rightarrow> nat" where
  "decimal ds = fold (\<lambda>c n. 10 * n + digit_value c) ds 0"

fun digit_groups :: "bool \<Rightarrow> string \<Rightarrow> string option" where
  "digit_groups prev_digit [] = (if prev_digit then Some [] else None)"
| "digit_groups prev_digit (c # cs) =
     (if isdigit c then map_option ((#) c) (digit_groups True cs)
      else if c = CHR ''_'' \<and> prev_digit then digit_groups False cs
      else None)"

definition signed :: "string \<Rightarrow> bool \<times> string" where
  "signed s =
     (case s of [] \<Rightarrow> (False, [])
      | c # r \<Rightarrow> if c = CHR ''-'' then (True, r) else if c = CHR ''+'' then (False, r) else (False, s))"

definition py_int :: "string \<Rightarrow> pyerror + int" where
  "py_int s =
     (let (neg, body) = signed (strip s)
      in case digit_groups False body of
           None \<Rightarrow> Inl ValueError
         | Some ds \<Rightarrow> Inr (if neg then - int (decimal ds) else int (decimal ds)))"

subsection \<open>Floats\<close>

text \<open>
  A Python \<open>float\<close> is an IEEE 754 binary64 value: \<open>Finite neg m e\<close> stands for
  \<open>(-1)^neg * m * 2^e\<close>, with \<open>m \<le> 2^53\<close> and \<open>-1074 \<le> e\<close>; the other values are the two
  infinities and NaN. The script only parses floats (\<open>float(s)\<close>) and formats them
  (\<open>{x:.2f}\<close>), so the model has these two operations and no arithmetic.
\<close>

datatype pyfloat = Finite bool nat int | Infinite bool | NaN

text \<open>The integer nearest to \<open>num / den\<close>, ties to the even one.\<close>

definition round_half_even :: "nat \<Rightarrow> nat \<Rightarrow> nat" where
  "round_half_even num den =
     (let q = num div den; r = num mod den
      in if 2 * r < den then q else if den < 2 * r then q + 1 else if even q then q else q + 1)"

fun bit_length :: "nat \<Rightarrow> nat" where
  "bit_length n = (if n = 0 then 0 else Suc (bit_length (n div 2)))"

declare bit_length.simps [simp del]

text \<open>
  The binary64 value nearest to \<open>num / den\<close> (\<open>den > 0\<close>), ties to even, as the correctly
  rounding \<open>float(s)\<close> gives it: \<open>lg\<close> is \<open>floor (log2 (num / den))\<close>, \<open>e\<close> the exponent of the
  last mantissa bit (\<open>-1074\<close> for a subnormal), and a value that rounds to \<open>2^1024\<close> or more
  becomes an infinity (\<open>float\<close> raises no overflow error).
\<close>

definition to_double :: "bool \<Rightarrow> nat \<Rightarrow> nat \<Rightarrow> pyfloat" where
  "to_double neg num den =
     (if num = 0 then Finite neg 0 0
      else
        let k = int (bit_length num) - int (bit_length den);
            lg = (if (if 0 \<le> k then den * 2 ^ nat k \<le> num else den \<le> num * 2 ^ nat (- k))
                  then k else k - 1);
            e = max (lg - 52) (- 1074);
            m = (if 0 \<le> e then round_half_even num (den * 2 ^ nat e)
                 else round_half_even (num * 2 ^ nat (- e)) den)
        in if 971 < e \<or> (e = 971 \<and> m = 2 ^ 53) then Infinite neg else Finite neg m e)"

text \<open>
  \<open>float(s)\<close> on a \<open>str\<close>. Surrounding whitespace is ignored. An underscore must stand
  between two digits (\<open>drop_underscores\<close>, which carries the previous character). What is
  left is an optional sign and then \<open>inf\<close>, \<open>infinity\<close> or \<open>nan\<close> in any case, or a decimal
  number: digits with an optional point, at least one digit in all, and an optional
  exponent \<open>e\<close> or \<open>E\<close>, sign, digits. Anything else raises \<open>ValueError\<close>.
\<close>

fun drop_underscores :: "char \<Rightarrow> string \<Rightarrow> string option" where
  "drop_underscores prev [] = (if prev = CHR ''_'' then None else Some [])"
| "drop_underscores prev (c # cs) =
     (if c = CHR ''_'' then (if isdigit prev then drop_underscores c cs else None)
      else if prev = CHR ''_'' \<and> \<not> isdigit c then None
      else map_option ((#) c) (drop_underscores c cs))"

definition lower :: "string \<Rightarrow> string" where
  "lower s = map (\<lambda>c. case map_of (zip ''ABCDEFGHIJKLMNOPQRSTUVWXYZ''
                                       ''abcdefghijklmnopqrstuvwxyz'') c of
                         None \<Rightarrow> c | Some l \<Rightarrow> l) s"

definition parse_exponent :: "string \<Rightarrow> int option" where
  "parse_exponent r =
     (case r of [] \<Rightarrow> Some 0
      | c # r' \<Rightarrow>
          if c = CHR ''e'' \<or> c = CHR ''E'' then
            (let (neg, ds) = signed r'
             in if ds \<noteq> [] \<and> list_all isdigit ds
                then Some (if neg then - int (decimal ds) else int (decimal ds)) else None)
          else None)"

text \<open>A decimal number as \<open>(d, x)\<close>, standing for \<open>d * 10^x\<close>.\<close>

definition parse_decimal :: "string \<Rightarrow> (nat \<times> int) option" where
  "parse_decimal s =
     (let ip = takeWhile isdigit s; r1 = dropWhile isdigit s;
          (fp, r2) = (case r1 of [] \<Rightarrow> ([], [])
                      | c # r \<Rightarrow> if c = CHR ''.'' then (takeWhile isdigit r, dropWhile isdigit r)
                                 else ([], r1))
      in if ip = [] \<and> fp = [] then None
         else map_option (\<lambda>x. (decimal (ip @ fp), x - int (length fp))) (parse_exponent r2))"

definition py_float :: "string \<Rightarrow> pyerror + pyfloat" where
  "py_float s =
     (case drop_underscores (CHR 0x00) (strip s) of
        None \<Rightarrow> Inl ValueError
      | Some t \<Rightarrow>
          let (neg, body) = signed t
          in if lower body = ''inf'' \<or> lower body = ''infinity'' then Inr (Infinite neg)
             else if lower body = ''nan'' then Inr NaN
             else (case parse_decimal body of
                     None \<Rightarrow> Inl ValueError
                   | Some (d, x) \<Rightarrow>
                       Inr (if 0 \<le> x then to_double neg (d * 10 ^ nat x) 1
                            else to_double neg d (10 ^ nat (- x)))))"

text \<open>
  \<open>{x:.2f}\<close>: the value rounded to hundredths (ties to even, on the exact binary value),
  written with its integer part, a point and two digits; the sign is kept, also on a zero.
  An infinity and NaN are written \<open>inf\<close>, \<open>-inf\<close> and \<open>nan\<close>.
\<close>

definition format_2f :: "pyfloat \<Rightarrow> string" where
  "format_2f x =
     (case x of
        NaN \<Rightarrow> ''nan''
      | Infinite neg \<Rightarrow> (if neg then ''-inf'' else ''inf'')
      | Finite neg m e \<Rightarrow>
          let h = (if 0 \<le> e then m * 2 ^ nat e * 100 else round_half_even (m * 100) (2 ^ nat (- e)))
          in (if neg then ''-'' else []) @ str_nat (h div 100) @ ''.'' @
             [digit_char (h mod 100 div 10), digit_char (h mod 10)])"

subsection \<open>Text files\<close>

text \<open>
  The file system is a map from paths to file contents. Reading in text mode translates
  \<open>\r\n\<close> and a lone \<open>\r\<close> to \<open>\n\<close>; \<open>readlines\<close> cuts after every \<open>\n\<close>. Opening a file
  for writing always succeeds in this model: failures of the operating system (a missing
  directory, a read-only path) are outside it.
\<close>

type_synonym fs = "string \<rightharpoonup> string"

abbreviation nl :: string where
  "nl \<equiv> [CHR 0x0A]"

fun universal_newlines :: "string \<Rightarrow> string" where
  "universal_newlines (c # d # cs) =
     (if c = CHR 0x0D \<and> d = CHR 0x0A then CHR 0x0A # universal_newlines cs
      else if c = CHR 0x0D then CHR 0x0A # universal_newlines (d # cs)
      else c # universal_newlines (d # cs))"
| "universal_newlines [c] = (if c = CHR 0x0D then [CHR 0x0A] else [c])"
| "universal_newlines [] = []"

fun lines_from :: "string \<Rightarrow> string \<Rightarrow> string list" where
  "lines_from cur [] = (if cur = [] then [] else [cur])"
| "lines_from cur (c # cs) =
     (if c = CHR 0x0A then (cur @ [c]) # lines_from [] cs else lines_from (cur @ [c]) cs)"

definition readlines :: "string \<Rightarrow> string list" where
  "readlines text = lines_from [] (universal_newlines text)"

text \<open>
  Writing: a result of a block of \<open>write\<close> calls is the list of the strings written, in
  order, and the exception that ended the block, if any. The \<open>with\<close> statement closes the
  file either way, so the strings written before an exception are in the file.
\<close>

type_synonym out = "string list \<times> pyerror option"

definition emit :: "string list \<Rightarrow> out" where
  "emit ws = (ws, None)"

fun then_out :: "out \<Rightarrow> out \<Rightarrow> out" where
  "then_out (ws, None) k = (ws @ fst k, snd k)"
| "then_out (ws, Some e) k = (ws, Some e)"

fun for_each :: "('a \<Rightarrow> out) \<Rightarrow> 'a list \<Rightarrow> out" where
  "for_each body [] = ([], None)"
| "for_each body (x # xs) = then_out (body x) (for_each body xs)"

text \<open>An expression that may raise, and what is done with its value.\<close>

definition guarded :: "pyerror + 'a \<Rightarrow> ('a \<Rightarrow> out) \<Rightarrow> out" where
  "guarded r k = (case r of Inl e \<Rightarrow> ([], Some e) | Inr v \<Rightarrow> k v)"

definition outcome :: "pyerror option \<Rightarrow> pyerror + unit" where
  "outcome err = (case err of None \<Rightarrow> Inr () | Some e \<Rightarrow> Inl e)"

section \<open>Chunks of a sequence: \<open>chunks\<close>\<close>

text \<open>
  \<^verbatim>\<open>
  def chunks(sequence, count):
      if count < 1:
          raise ValueError('count must be > 0')
      for i in range(0, len(sequence), count):
          yield sequence[i:i+count]
  \<close>
  \<open>chunks_from\<close> is the loop at index \<open>i\<close>; the generator is read to its end by every
  caller, so its value is the list of the chunks it yields.
\<close>

function chunks_from :: "'a list \<Rightarrow> nat \<Rightarrow> nat \<Rightarrow> 'a list list" where
  "chunks_from sequence count i =
     (if count = 0 \<or> length sequence \<le> i then []
      else py_slice sequence (int i) (int i + int count) # chunks_from sequence count (i + count))"
  by pat_completeness auto
termination
  by (relation "measure (\<lambda>(sequence, count, i). length sequence - i)") auto

declare chunks_from.simps [simp del]

definition chunks :: "'a list \<Rightarrow> int \<Rightarrow> pyerror + 'a list list" where
  "chunks sequence count =
     (if count < 1 then Inl ValueError else Inr (chunks_from sequence (nat count) 0))"

section \<open>The reader: \<open>read_mesh\<close>\<close>

text \<open>
  \<^verbatim>\<open>
  with open(name) as mesh:
      lines = [ln.strip() for ln in mesh.readlines()]
  # Remove comments, just in case
  lines = [ln for ln in lines if not ln.startswith('#')]
  \<close>
\<close>

definition mesh_lines :: "string \<Rightarrow> string list" where
  "mesh_lines text = filter (\<lambda>ln. \<not> startswith ln ''#'') (map strip (readlines text))"

text \<open>\<open>xs.index(x)\<close>: the position of the first item equal to \<open>x\<close>, or \<open>ValueError\<close>.\<close>

definition list_index :: "'a list \<Rightarrow> 'a \<Rightarrow> pyerror + nat" where
  "list_index xs x =
     (if x \<in> set xs then Inr (length (takeWhile (\<lambda>y. y \<noteq> x) xs)) else Inl ValueError)"

text \<open>
  The script reads each of its four sections with the same three statements:
  \<^verbatim>\<open>
  pi = lines.index('points') + 2
  numpoints = int(lines[pi-1])
  ... lines[pi:pi+numpoints] ...
  \<close>
  \<open>section_lines\<close> is these statements for a keyword; its value is the slice.
\<close>

definition section_lines :: "string list \<Rightarrow> string \<Rightarrow> pyerror + string list" where
  "section_lines lines keyword =
     and_then (list_index lines keyword) (\<lambda>i.
       let pi = i + 2
       in and_then (and_then (getitem lines (pi - 1)) py_int) (\<lambda>num.
            Inr (py_slice lines (int pi) (int pi + num))))"

text \<open>\<open>(int(m[0]), m[1])\<close> for a split materials line.\<close>

definition material_of :: "string list \<Rightarrow> pyerror + int \<times> string" where
  "material_of m =
     and_then (and_then (getitem m 0) py_int) (\<lambda>matnum.
       and_then (getitem m 1) (\<lambda>matname. Inr (matnum, matname)))"

text \<open>
  \<open>edgeboundaries\<close> is a \<open>defaultdict(set)\<close>: a dictionary, which keeps its keys in the
  order of their first insertion, from tags to sets of node ids. \<open>set_add key v d\<close> is
  \<open>d[key].add(v)\<close>, which first makes the empty set for a key that is not there.
  \<^verbatim>\<open>
  for e in edges:
      key = int(e[0])
      if key > 100:
          edgeboundaries[key].add(int(e[2]))
          edgeboundaries[key].add(int(e[3]))
  \<close>
\<close>

type_synonym boundaries = "(int \<times> int set) list"

definition set_add :: "int \<Rightarrow> int \<Rightarrow> boundaries \<Rightarrow> boundaries" where
  "set_add key v d =
     (if key \<in> fst ` set d then map (\<lambda>(k, s). if k = key then (k, insert v s) else (k, s)) d
      else d @ [(key, {v})])"

fun edge_loop :: "string list list \<Rightarrow> boundaries \<Rightarrow> pyerror + boundaries" where
  "edge_loop [] d = Inr d"
| "edge_loop (e # es) d =
     and_then (and_then (getitem e 0) py_int) (\<lambda>key.
       if key > 100 then
         and_then (and_then (getitem e 2) py_int) (\<lambda>a.
           and_then (and_then (getitem e 3) py_int) (\<lambda>b.
             edge_loop es (set_add key b (set_add key a d))))
       else edge_loop es d)"

type_synonym mesh = "pyfloat list list \<times> int list list \<times> (int \<times> string) list \<times> boundaries"

text \<open>The body of \<open>read_mesh\<close> after the file has been read: \<open>text\<close> is the file's content.\<close>

definition parse_mesh :: "string \<Rightarrow> pyerror + mesh" where
  "parse_mesh text =
     (let lines = mesh_lines text
      in and_then (section_lines lines ''points'') (\<lambda>pls.
         and_then (map_raising (\<lambda>ln. map_raising py_float (split_ws ln)) pls) (\<lambda>points.
         and_then (section_lines lines ''surfaceelements'') (\<lambda>sls.
         and_then (map_raising (\<lambda>ln. map_raising py_int (split_ws ln)) sls) (\<lambda>elements.
         and_then (section_lines lines ''materials'') (\<lambda>mls.
         and_then (map_raising material_of (map split_ws mls)) (\<lambda>materials.
         and_then (section_lines lines ''edgesegmentsgi2'') (\<lambda>els.
         and_then (edge_loop (map split_ws els) []) (\<lambda>edgeboundaries.
           Inr (points, elements, materials, edgeboundaries))))))))))"

definition read_mesh :: "string \<Rightarrow> fs \<Rightarrow> pyerror + mesh" where
  "read_mesh name fs =
     (case fs name of None \<Rightarrow> Inl FileNotFoundError | Some text \<Rightarrow> parse_mesh text)"

section \<open>The node deck: \<open>write_nodes\<close>\<close>

text \<open>The four comment lines both writers start with.\<close>

definition header :: "string \<Rightarrow> string list" where
  "header name =
     [''**'' @ nl, ''** '' @ name @ nl, ''** Gegenereerd door mesh2inp.py.'' @ nl, ''**'' @ nl]"

text \<open>
  \<^verbatim>\<open>
  for n, (x, y, z) in enumerate(points, start=1):
      nodefile.write(f'{n}, {x:.2f}, {y:.2f}, {z:.2f}\n')
  \<close>
  Unpacking a point that has not exactly three coordinates raises \<open>ValueError\<close>.
\<close>

definition node_record :: "int \<times> pyfloat list \<Rightarrow> out" where
  "node_record = (\<lambda>(n, p).
     case p of
       [x, y, z] \<Rightarrow>
         emit [str_int n @ '', '' @ format_2f x @ '', '' @ format_2f y @ '', '' @ format_2f z @ nl]
     | _ \<Rightarrow> ([], Some ValueError))"

text \<open>
  \<^verbatim>\<open>
  for sub in chunks(nodes, 16):
      nodefile.write('  '+', '.join(str(i) for i in sub)+'\n')
  \<close>
\<close>

definition id_lines :: "int list \<Rightarrow> out" where
  "id_lines ids =
     guarded (chunks ids 16)
       (for_each (\<lambda>sub. emit [''  '' @ join '', '' (map str_int sub) @ nl]))"

text \<open>
  \<^verbatim>\<open>
  for m in materials:
      matnum, matname = m
      nset = set()
      for e in [el for el in elements if el[1] == matnum]:
          nset.update(set(e[5:5+e[4]]))
      nodefile.write(f'*NSET,NSET=N{matname}\n')
      for sub in chunks(sorted(list(nset)), 16):
          nodefile.write('  '+', '.join(str(i) for i in sub)+'\n')
  \<close>
  The comprehension is evaluated whole before the loop over it starts, and both come
  before the set's first line is written.
\<close>

fun select_material :: "int \<Rightarrow> int list list \<Rightarrow> pyerror + int list list" where
  "select_material matnum [] = Inr []"
| "select_material matnum (el # els) =
     and_then (getitem el 1) (\<lambda>v.
       and_then (select_material matnum els) (\<lambda>r. Inr (if v = matnum then el # r else r)))"

fun node_union :: "int list list \<Rightarrow> int set \<Rightarrow> pyerror + int set" where
  "node_union [] nset = Inr nset"
| "node_union (e # es) nset =
     and_then (getitem e 4) (\<lambda>cnt. node_union es (nset \<union> set (py_slice e 5 (5 + cnt))))"

definition material_set :: "int list list \<Rightarrow> int \<times> string \<Rightarrow> out" where
  "material_set elements = (\<lambda>(matnum, matname).
     guarded (and_then (select_material matnum elements) (\<lambda>sel. node_union sel {})) (\<lambda>nset.
       then_out (emit [''*NSET,NSET=N'' @ matname @ nl]) (id_lines (sorted_list_of_set nset))))"

text \<open>
  \<^verbatim>\<open>
  for k in edge_boundaries.keys():
      nodes = sorted(list(edge_boundaries[k]))
      nodefile.write(f'*NSET,NSET=Nedge{k}\n')
      for sub in chunks(nodes, 16):
          nodefile.write('  '+', '.join(str(i) for i in sub)+'\n')
  \<close>
\<close>

definition edge_set :: "int \<times> int set \<Rightarrow> out" where
  "edge_set = (\<lambda>(k, nodes).
     then_out (emit [''*NSET,NSET=Nedge'' @ str_int k @ nl]) (id_lines (sorted_list_of_set nodes)))"

text \<open>Everything \<open>write_nodes\<close> writes into the file it has opened under \<open>name\<close>.\<close>

definition nodes_out ::
  "string \<Rightarrow> pyfloat list list \<Rightarrow> int list list \<Rightarrow> (int \<times> string) list \<Rightarrow> boundaries \<Rightarrow> out" where
  "nodes_out name points elements materials edge_boundaries =
     then_out (emit (header name))
    (then_out (emit [''*NODE,NSET=Nall'' @ nl])
    (then_out (for_each node_record (enumerate1 points))
    (then_out (for_each (material_set elements) materials)
              (for_each edge_set edge_boundaries))))"

text \<open>
  \<^verbatim>\<open>
  if not name.endswith('.inp'):
      name += '.inp'
  with open(name, 'wt') as nodefile:
  \<close>
\<close>

definition write_nodes ::
  "string \<Rightarrow> pyfloat list list \<Rightarrow> int list list \<Rightarrow> (int \<times> string) list \<Rightarrow> boundaries \<Rightarrow> fs
     \<Rightarrow> (pyerror + unit) \<times> fs" where
  "write_nodes name points elements materials edge_boundaries fs =
     (let name' = (if \<not> endswith name ''.inp'' then name @ ''.inp'' else name);
          (ws, err) = nodes_out name' points elements materials edge_boundaries
      in (outcome err, fs(name' \<mapsto> concat ws)))"

section \<open>The element deck: \<open>write_elements\<close>\<close>

text \<open>
  \<^verbatim>\<open>
  for n, e in enumerate(elements, start=1):
      cnt = e[4]
      nodes = list(e[5:5+cnt])
      if cnt == 6:  # S6 element
          nodes = [
              n, nodes[0], nodes[1], nodes[2], nodes[5], nodes[3], nodes[4]
          ]
          efile.write(', '.join(str(j) for j in nodes)+'\n')
  \<close>
\<close>

definition connectivity :: "int \<times> int list \<Rightarrow> out" where
  "connectivity = (\<lambda>(n, e).
     guarded (getitem e 4) (\<lambda>cnt.
       let nodes = py_slice e 5 (5 + cnt)
       in if cnt = 6 then
            guarded (map_raising (getitem nodes) [0, 1, 2, 5, 3, 4]) (\<lambda>ns.
              emit [join '', '' (map str_int (n # ns)) @ nl])
          else emit []))"

text \<open>
  \<^verbatim>\<open>
  for m in materials:
      matnum, matname = m
      efile.write(f'*ELSET,ELSET=E{matname}\n')
      elnums = [n for n, el in enumerate(elements, start=1) if el[1] == matnum]
      subs = chunks(elnums, 16)
      for sub in subs:
          efile.write(', '.join(str(elnum) for elnum in sub)+',\n')
  \<close>
  Here the set's first line is written before the comprehension is evaluated.
\<close>

fun select_numbers :: "int \<Rightarrow> (int \<times> int list) list \<Rightarrow> pyerror + int list" where
  "select_numbers matnum [] = Inr []"
| "select_numbers matnum ((n, el) # els) =
     and_then (getitem el 1) (\<lambda>v.
       and_then (select_numbers matnum els) (\<lambda>r. Inr (if v = matnum then n # r else r)))"

definition element_set :: "int list list \<Rightarrow> int \<times> string \<Rightarrow> out" where
  "element_set elements = (\<lambda>(matnum, matname).
     then_out (emit [''*ELSET,ELSET=E'' @ matname @ nl])
       (guarded (select_numbers matnum (enumerate1 elements)) (\<lambda>elnums.
          guarded (chunks elnums 16)
            (for_each (\<lambda>sub. emit [join '', '' (map str_int sub) @ '','' @ nl])))))"

definition elements_out :: "string \<Rightarrow> int list list \<Rightarrow> (int \<times> string) list \<Rightarrow> out" where
  "elements_out name elements materials =
     then_out (emit (header name))
    (then_out (emit [''*ELEMENT, TYPE=S6, ELSET=Eall'' @ nl])
    (then_out (for_each connectivity (enumerate1 elements))
              (for_each (element_set elements) materials)))"

definition write_elements ::
  "string \<Rightarrow> int list list \<Rightarrow> (int \<times> string) list \<Rightarrow> fs \<Rightarrow> (pyerror + unit) \<times> fs" where
  "write_elements name elements materials fs =
     (let (ws, err) = elements_out name elements materials
      in (outcome err, fs(name \<mapsto> concat ws)))"

section \<open>The run: \<open>main\<close>\<close>

text \<open>
  \<open>main(sys.argv[1:])\<close>. The calls of \<open>logging\<close> write to the standard error stream and
  change neither a file nor the control flow; they are left out.
  \<^verbatim>\<open>
  if len(argv) < 3:
      logging.error('mesh2inp.py requires three file names')
      sys.exit(1)
  points, elements, materials, edge_boundaries = read_mesh(argv[0])
  write_nodes(argv[1], points, elements, materials, edge_boundaries)
  write_elements(argv[2], elements, materials)
  \<close>
\<close>

definition main :: "string list \<Rightarrow> fs \<Rightarrow> (pyerror + unit) \<times> fs" where
  "main argv fs =
     (if length argv < 3 then (Inl (SystemExit 1), fs)
      else case read_mesh (argv ! 0) fs of
             Inl e \<Rightarrow> (Inl e, fs)
           | Inr (points, elements, materials, edge_boundaries) \<Rightarrow>
               (case write_nodes (argv ! 1) points elements materials edge_boundaries fs of
                  (Inl e, fs') \<Rightarrow> (Inl e, fs')
                | (Inr u, fs') \<Rightarrow> write_elements (argv ! 2) elements materials fs'))"

section \<open>Properties\<close>

subsection \<open>Chunking\<close>

lemma py_slice_nonneg:
  "py_slice xs (int i) (int i + int c) = take c (drop i xs)"
proof -
  have a: "slice_bound (length xs) (int i) = min i (length xs)"
    by (simp add: slice_bound_def)
  have b: "slice_bound (length xs) (int i + int c) = min (i + c) (length xs)"
    by (simp add: slice_bound_def nat_add_distrib)
  show ?thesis
  proof (cases "i \<le> length xs")
    case True
    then have "take (min (i + c) (length xs) - i) (drop i xs) = take c (drop i xs)"
      by (cases "i + c \<le> length xs") (simp_all add: min_def)
    with True show ?thesis by (simp add: py_slice_def a b min_def)
  next
    case False
    then show ?thesis by (simp add: py_slice_def a b)
  qed
qed

lemma chunks_from_unfold:
  "0 < count \<Longrightarrow> i < length xs \<Longrightarrow>
   chunks_from xs count i = take count (drop i xs) # chunks_from xs count (i + count)"
  by (subst chunks_from.simps) (simp add: py_slice_nonneg)

lemma chunks_from_done:
  "length xs \<le> i \<Longrightarrow> chunks_from xs count i = []"
  by (subst chunks_from.simps) simp

lemma chunks_from_concat:
  "0 < count \<Longrightarrow> concat (chunks_from xs count i) = drop i xs"
proof (induction xs count i rule: chunks_from.induct)
  case (1 sequence count i)
  show ?case
  proof (cases "length sequence \<le> i")
    case True
    then show ?thesis by (simp add: chunks_from_done)
  next
    case False
    with 1 have ih: "concat (chunks_from sequence count (i + count)) = drop (i + count) sequence"
      by simp
    have "take count (drop i sequence) @ drop count (drop i sequence) = drop i sequence"
      by (rule append_take_drop_id)
    then have "take count (drop i sequence) @ drop (i + count) sequence = drop i sequence"
      by (simp add: add.commute)
    with False 1(2) ih show ?thesis
      by (simp add: chunks_from_unfold)
  qed
qed

lemma ceil_div_step:
  fixes c d :: nat
  assumes "0 < c" "0 < d"
  shows "(d + c - 1) div c = Suc ((d - c + c - 1) div c)"
proof (cases "c \<le> d")
  case True
  then have "d + c - 1 = (d - c + c - 1) + c" using assms by arith
  then show ?thesis using assms by (simp only: div_add_self2)
next
  case False
  then have "d - c + c - 1 < c" using assms by arith
  then have z: "(d - c + c - 1) div c = 0" by simp
  obtain m where m: "d + c - 1 = m + c" "m < c"
    using False assms by (intro that [of "d - 1"]) arith+
  then have "(d + c - 1) div c = Suc (m div c)"
    using assms by (simp only: div_add_self2)
  with m z show ?thesis by simp
qed

lemma chunks_from_length:
  "0 < count \<Longrightarrow> length (chunks_from xs count i) = (length xs - i + count - 1) div count"
proof (induction xs count i rule: chunks_from.induct)
  case (1 sequence count i)
  show ?case
  proof (cases "length sequence \<le> i")
    case True
    with 1(2) show ?thesis by (simp add: chunks_from_done)
  next
    case False
    with 1 have ih: "length (chunks_from sequence count (i + count)) =
        (length sequence - (i + count) + count - 1) div count"
      by simp
    from False have lt: "i < length sequence" by simp
    have eq: "length sequence - (i + count) = length sequence - i - count" by simp
    from lt 1(2) have "length (chunks_from sequence count i) =
        Suc ((length sequence - i - count + count - 1) div count)"
      by (simp only: chunks_from_unfold ih eq length_Cons)
    also have "\<dots> = (length sequence - i + count - 1) div count"
      using ceil_div_step [of count "length sequence - i"] lt 1(2) by simp
    finally show ?thesis .
  qed
qed

lemma chunks_from_full:
  "0 < count \<Longrightarrow> \<forall>c \<in> set (butlast (chunks_from xs count i)). length c = count"
proof (induction xs count i rule: chunks_from.induct)
  case (1 sequence count i)
  show ?case
  proof (cases "length sequence \<le> i")
    case True
    then show ?thesis by (simp add: chunks_from_done)
  next
    case False
    with 1 have ih: "\<forall>c \<in> set (butlast (chunks_from sequence count (i + count))). length c = count"
      by simp
    from False have lt: "i < length sequence" by simp
    show ?thesis
    proof (cases "i + count < length sequence")
      case True
      then have "length (take count (drop i sequence)) = count" by simp
      with lt 1(2) ih show ?thesis by (simp add: chunks_from_unfold)
    next
      case False
      then have "chunks_from sequence count (i + count) = []" by (simp add: chunks_from_done)
      with lt 1(2) show ?thesis by (simp add: chunks_from_unfold)
    qed
  qed
qed

text \<open>
  Claim C8. Chunking at width 16 never fails; it yields \<open>ceil(L / 16)\<close> chunks, written
  \<open>(L + 15) div 16\<close>, for a list of length \<open>L\<close>; every chunk but the last has exactly
  16 items; and the chunks, concatenated in order, are the list.
\<close>

theorem chunks_law:
  "\<exists>cs. chunks xs 16 = Inr cs \<and> length cs = (length xs + 15) div 16 \<and>
     (\<forall>c \<in> set (butlast cs). length c = 16) \<and> concat cs = xs"
  using chunks_from_length [of 16 xs 0] chunks_from_full [of 16 xs 0] chunks_from_concat [of 16 xs 0]
  by (simp add: chunks_def)

text \<open>At 35 items: three chunks, the first two of them full.\<close>

theorem chunks_law_witness:
  "\<exists>cs. chunks [1 ..< 36 :: nat] 16 = Inr cs \<and> length cs = 3 \<and> butlast cs \<noteq> [] \<and>
     list_all (\<lambda>c. length c = 16) (butlast cs) \<and> concat cs = [1 ..< 36]"
proof -
  obtain cs where cs: "chunks [1 ..< 36 :: nat] 16 = Inr cs" "length cs = (length [1 ..< 36 :: nat] + 15) div 16"
    "\<forall>c \<in> set (butlast cs). length c = 16" "concat cs = [1 ..< 36]"
    using chunks_law [of "[1 ..< 36 :: nat]"] by blast
  from cs(2) have l: "length cs = 3" by simp
  then have "butlast cs \<noteq> []" by (cases cs) auto
  with cs l show ?thesis by (auto simp: list_all_iff)
qed

subsection \<open>Connectivity lines and element sets\<close>

lemma then_out_emit: "then_out (emit ws) k = (ws @ fst k, snd k)"
  by (simp add: emit_def)

lemma then_out_ok: "snd a = None \<Longrightarrow> then_out a k = (fst a @ fst k, snd k)"
  by (cases a) simp

lemma for_each_ok:
  "(\<And>x. x \<in> set xs \<Longrightarrow> snd (body x) = None) \<Longrightarrow>
   for_each body xs = (concat (map (\<lambda>x. fst (body x)) xs), None)"
  by (induction xs) (simp_all add: then_out_ok)

lemma for_each_emit:
  "for_each (\<lambda>x. emit [f x]) xs = (map f xs, None)"
  by (induction xs) (simp_all add: then_out_emit)

lemma enumerate1_nth:
  "enumerate1 xs = map (\<lambda>i. (int i + 1, xs ! i)) [0 ..< length xs]"
proof (rule nth_equalityI)
  show "length (enumerate1 xs) = length (map (\<lambda>i. (int i + 1, xs ! i)) [0 ..< length xs])"
    by (simp add: enumerate1_def del: upt_Suc)
next
  fix i assume "i < length (enumerate1 xs)"
  then have i: "i < length xs" by (simp add: enumerate1_def del: upt_Suc)
  then have "[1 ..< Suc (length xs)] ! i = 1 + i"
    by (simp del: upt_Suc)
  with i show "enumerate1 xs ! i = map (\<lambda>i. (int i + 1, xs ! i)) [0 ..< length xs] ! i"
    by (simp add: enumerate1_def del: upt_Suc)
qed

lemma py_slice_take_drop:
  "0 \<le> a \<Longrightarrow> 0 \<le> c \<Longrightarrow> py_slice xs a (a + c) = take (nat c) (drop (nat a) xs)"
  using py_slice_nonneg [of xs "nat a" "nat c"] by simp

lemma connectivity_six:
  assumes "e ! 4 = 6" "11 \<le> length e"
  shows "connectivity (n, e) =
    emit [join '', '' (map str_int [n, e ! 5, e ! 6, e ! 7, e ! 10, e ! 8, e ! 9]) @ nl]"
proof -
  have s: "py_slice e 5 (5 + 6) = take 6 (drop 5 e)"
    using py_slice_take_drop [of 5 6 e] by simp
  have g: "k < 6 \<Longrightarrow> getitem (take 6 (drop 5 e)) k = Inr (e ! (5 + k))" for k
    using assms(2) by (simp add: getitem_def)
  have m: "map_raising (getitem (take 6 (drop 5 e))) [0, 1, 2, 5, 3, 4] =
      Inr [e ! 5, e ! 6, e ! 7, e ! 10, e ! 8, e ! 9]"
    using g [of 0] g [of 1] g [of 2] g [of 5] g [of 3] g [of 4] by simp
  have f: "getitem e 4 = Inr 6"
    using assms by (simp add: getitem_def)
  show ?thesis
    by (simp only: connectivity_def prod.case guarded_def f sum.case Let_def s m) simp
qed

lemma connectivity_other:
  assumes "e ! 4 \<noteq> 6" "5 \<le> length e"
  shows "connectivity (n, e) = emit []"
proof -
  have f: "getitem e 4 = Inr (e ! 4)"
    using assms by (simp add: getitem_def)
  show ?thesis
    using assms(1) by (simp add: connectivity_def guarded_def f Let_def)
qed

lemma select_numbers_ok:
  "(\<And>n el. (n, el) \<in> set nes \<Longrightarrow> 2 \<le> length el) \<Longrightarrow>
   select_numbers matnum nes = Inr (map fst (filter (\<lambda>(n, el). el ! 1 = matnum) nes))"
proof (induction nes)
  case Nil
  then show ?case by simp
next
  case (Cons p nes)
  obtain n el where p: "p = (n, el)" by (cases p)
  with Cons.prems [of n el] have "2 \<le> length el" by simp
  then have "getitem el 1 = Inr (el ! 1)" by (simp add: getitem_def)
  moreover have "select_numbers matnum nes = Inr (map fst (filter (\<lambda>(n, el). el ! 1 = matnum) nes))"
    by (rule Cons.IH) (use Cons.prems in auto)
  ultimately show ?case using p by simp
qed

lemma id_lines_unfold:
  "id_lines ids = (map (\<lambda>sub. ''  '' @ join '', '' (map str_int sub) @ nl) (chunks_from ids 16 0), None)"
  by (simp add: id_lines_def chunks_def guarded_def for_each_emit)

lemma element_set_ok:
  assumes "\<And>e. e \<in> set elements \<Longrightarrow> 2 \<le> length e"
  shows "element_set elements (matnum, matname) =
    ((''*ELSET,ELSET=E'' @ matname @ nl) #
       map (\<lambda>sub. join '', '' (map str_int sub) @ '','' @ nl)
         (chunks_from (map (\<lambda>i. int i + 1)
            (filter (\<lambda>i. elements ! i ! 1 = matnum) [0 ..< length elements])) 16 0), None)"
proof -
  have "select_numbers matnum (enumerate1 elements) =
      Inr (map fst (filter (\<lambda>(n, el). el ! 1 = matnum) (enumerate1 elements)))"
    using assms by (intro select_numbers_ok) (auto simp: enumerate1_def dest: set_zip_rightD)
  moreover have "map fst (filter (\<lambda>(n, el). el ! 1 = matnum) (enumerate1 elements)) =
      map (\<lambda>i. int i + 1) (filter (\<lambda>i. elements ! i ! 1 = matnum) [0 ..< length elements])"
    by (simp add: enumerate1_nth filter_map comp_def)
  ultimately show ?thesis
    by (simp add: element_set_def then_out_emit guarded_def chunks_def for_each_emit)
qed

lemma connectivity_loop:
  assumes "\<forall>e \<in> set elements. 5 \<le> length e \<and> (e ! 4 = 6 \<longrightarrow> 11 \<le> length e)"
  shows "for_each connectivity (enumerate1 elements) =
    (concat (map (\<lambda>i. if elements ! i ! 4 = 6
         then [join '', '' (map str_int [int i + 1, elements ! i ! 5, elements ! i ! 6,
                 elements ! i ! 7, elements ! i ! 10, elements ! i ! 8, elements ! i ! 9]) @ nl]
         else []) [0 ..< length elements]), None)"
proof -
  have c: "connectivity (int i + 1, elements ! i) =
      (if elements ! i ! 4 = 6
       then [join '', '' (map str_int [int i + 1, elements ! i ! 5, elements ! i ! 6,
                 elements ! i ! 7, elements ! i ! 10, elements ! i ! 8, elements ! i ! 9]) @ nl]
       else [], None)" if "i < length elements" for i
  proof -
    from that assms have "5 \<le> length (elements ! i)"
      "elements ! i ! 4 = 6 \<longrightarrow> 11 \<le> length (elements ! i)" by simp_all
    then show ?thesis
      using connectivity_six [of "elements ! i" "int i + 1"]
        connectivity_other [of "elements ! i" "int i + 1"]
      by (simp add: emit_def)
  qed
  have "for_each connectivity (enumerate1 elements) =
      (concat (map (\<lambda>x. fst (connectivity x)) (enumerate1 elements)), None)"
    by (rule for_each_ok) (auto simp: enumerate1_nth c)
  also have "map (\<lambda>x. fst (connectivity x)) (enumerate1 elements) =
      map (\<lambda>i. if elements ! i ! 4 = 6
       then [join '', '' (map str_int [int i + 1, elements ! i ! 5, elements ! i ! 6,
               elements ! i ! 7, elements ! i ! 10, elements ! i ! 8, elements ! i ! 9]) @ nl]
       else []) [0 ..< length elements]"
    by (simp add: enumerate1_nth c)
  finally show ?thesis .
qed

lemma element_set_loop:
  assumes "\<And>e. e \<in> set elements \<Longrightarrow> 2 \<le> length e"
  shows "for_each (element_set elements) materials =
    (concat (map (\<lambda>(matnum, matname). (''*ELSET,ELSET=E'' @ matname @ nl) #
         map (\<lambda>sub. join '', '' (map str_int sub) @ '','' @ nl)
           (chunks_from (map (\<lambda>i. int i + 1)
              (filter (\<lambda>i. elements ! i ! 1 = matnum) [0 ..< length elements])) 16 0))
       materials), None)"
proof -
  have "for_each (element_set elements) materials =
      (concat (map (\<lambda>x. fst (element_set elements x)) materials), None)"
    by (rule for_each_ok) (auto simp: element_set_ok [OF assms])
  also have "map (\<lambda>x. fst (element_set elements x)) materials =
      map (\<lambda>(matnum, matname). (''*ELSET,ELSET=E'' @ matname @ nl) #
       map (\<lambda>sub. join '', '' (map str_int sub) @ '','' @ nl)
         (chunks_from (map (\<lambda>i. int i + 1)
            (filter (\<lambda>i. elements ! i ! 1 = matnum) [0 ..< length elements])) 16 0))
     materials"
    by (auto simp: element_set_ok [OF assms])
  finally show ?thesis .
qed

text \<open>
  Claim C1. Where every element record has its node count (at least five fields) and a
  record with node count 6 has its six node ids, \<open>write_elements\<close> writes the header, the
  \<open>*ELEMENT\<close> line and then, for the records in file order, one line for each record with
  node count 6 and none for any other: the record's number, counted from 1, and its node
  ids \<open>(a, b, c, d, e, f)\<close> as \<open>(a, b, c, f, d, e)\<close>. What follows is what the loop over
  the materials writes.
\<close>

theorem connectivity_reordered:
  assumes "\<forall>e \<in> set elements. 5 \<le> length e \<and> (e ! 4 = 6 \<longrightarrow> 11 \<le> length e)"
  shows "elements_out name elements materials =
    (header name @ [''*ELEMENT, TYPE=S6, ELSET=Eall'' @ nl] @
     concat (map (\<lambda>i. if elements ! i ! 4 = 6
         then [join '', '' (map str_int [int i + 1, elements ! i ! 5, elements ! i ! 6,
                 elements ! i ! 7, elements ! i ! 10, elements ! i ! 8, elements ! i ! 9]) @ nl]
         else []) [0 ..< length elements]) @
     fst (for_each (element_set elements) materials), None)"
proof -
  have two: "2 \<le> length e" if "e \<in> set elements" for e
    using that assms by fastforce
  show ?thesis
    by (simp add: elements_out_def then_out_emit connectivity_loop [OF assms]
        element_set_loop [OF two])
qed

text \<open>
  A record with node count 6 and one with node count 3: one connectivity line, for the
  first.
\<close>

theorem connectivity_reordered_witness:
  "list_all (\<lambda>e. 5 \<le> length e \<and> (e ! 4 = 6 \<longrightarrow> 11 \<le> length e))
     [[1, 1, 0, 0, 6, 11, 12, 13, 14, 15, 16], [2, 1, 0, 0, 3, 21, 22, 23 :: int]] \<and>
   elements_out ''e.inp'' [[1, 1, 0, 0, 6, 11, 12, 13, 14, 15, 16], [2, 1, 0, 0, 3, 21, 22, 23]]
       [(1, ''steel'')] =
     ([''**'' @ nl, ''** e.inp'' @ nl, ''** Gegenereerd door mesh2inp.py.'' @ nl, ''**'' @ nl,
       ''*ELEMENT, TYPE=S6, ELSET=Eall'' @ nl,
       ''1, 11, 12, 13, 16, 14, 15'' @ nl,
       ''*ELSET,ELSET=Esteel'' @ nl, ''1, 2,'' @ nl], None)"
proof -
  have wf: "\<forall>e \<in> set [[1, 1, 0, 0, 6, 11, 12, 13, 14, 15, 16], [2, 1, 0, 0, 3, 21, 22, 23 :: int]].
      5 \<le> length e \<and> (e ! 4 = 6 \<longrightarrow> 11 \<le> length e)"
    by simp
  show ?thesis
  proof (intro conjI)
    show "list_all (\<lambda>e. 5 \<le> length e \<and> (e ! 4 = 6 \<longrightarrow> 11 \<le> length e))
        [[1, 1, 0, 0, 6, 11, 12, 13, 14, 15, 16], [2, 1, 0, 0, 3, 21, 22, 23 :: int]]"
      by simp
  next
    show "elements_out ''e.inp'' [[1, 1, 0, 0, 6, 11, 12, 13, 14, 15, 16], [2, 1, 0, 0, 3, 21, 22, 23]]
       [(1, ''steel'')] =
     ([''**'' @ nl, ''** e.inp'' @ nl, ''** Gegenereerd door mesh2inp.py.'' @ nl, ''**'' @ nl,
       ''*ELEMENT, TYPE=S6, ELSET=Eall'' @ nl,
       ''1, 11, 12, 13, 16, 14, 15'' @ nl,
       ''*ELSET,ELSET=Esteel'' @ nl, ''1, 2,'' @ nl], None)"
      by (subst connectivity_reordered [OF wf]) code_simp
  qed
qed

text \<open>
  Claim C3. Under the same condition on the element records, what \<open>write_elements\<close>
  writes after the connectivity lines is, for each material \<open>(id, name)\<close> in order, the
  line \<open>*ELSET,ELSET=E<name>\<close> and then the numbers, counted from 1, of all the records
  whose second field is \<open>id\<close>, whatever their node count: in ascending order, cut into
  chunks of 16 by \<open>chunks\<close>, each chunk written comma-separated on a line that ends with a
  comma.
\<close>

theorem element_sets:
  assumes "\<forall>e \<in> set elements. 5 \<le> length e \<and> (e ! 4 = 6 \<longrightarrow> 11 \<le> length e)"
  shows "elements_out name elements materials =
    (header name @ [''*ELEMENT, TYPE=S6, ELSET=Eall'' @ nl] @
     fst (for_each connectivity (enumerate1 elements)) @
     concat (map (\<lambda>(matnum, matname). (''*ELSET,ELSET=E'' @ matname @ nl) #
         map (\<lambda>sub. join '', '' (map str_int sub) @ '','' @ nl)
           (chunks_from (map (\<lambda>i. int i + 1)
              (filter (\<lambda>i. elements ! i ! 1 = matnum) [0 ..< length elements])) 16 0))
       materials), None) \<and>
    (\<forall>matnum. sorted_wrt (<) (map (\<lambda>i. int i + 1)
              (filter (\<lambda>i. elements ! i ! 1 = matnum) [0 ..< length elements])))"
proof -
  have two: "2 \<le> length e" if "e \<in> set elements" for e
    using that assms by fastforce
  have "sorted_wrt (<) (map (\<lambda>i. int i + 1) (filter P [0 ..< n]))" for P n
  proof -
    have "sorted_wrt (<) (filter P [0 ..< n])"
      by (rule sorted_wrt_filter) simp
    then have "sorted_wrt (\<lambda>x y. int x + 1 < int y + 1) (filter P [0 ..< n])"
      by (rule sorted_wrt_mono_rel [rotated]) simp
    then show ?thesis by (simp only: sorted_wrt_map)
  qed
  then show ?thesis
    by (simp add: elements_out_def then_out_emit connectivity_loop [OF assms]
        element_set_loop [OF two])
qed

text \<open>
  Eighteen records of material 1, the last with node count 3, and one of material 2 in
  between: the set of material 1 takes two lines, and number 18 is in it.
\<close>

theorem element_sets_witness:
  "list_all (\<lambda>e. 5 \<le> length e \<and> (e ! 4 = 6 \<longrightarrow> 11 \<le> length e))
     (replicate 9 [0, 1, 0, 0, 3, 1, 2, 3] @ [[0, 2, 0, 0, 3, 1, 2, 3]] @
      replicate 9 [0, 1, 0, 0, 3, 1, 2, 3 :: int]) \<and>
   elements_out ''e.inp''
     (replicate 9 [0, 1, 0, 0, 3, 1, 2, 3] @ [[0, 2, 0, 0, 3, 1, 2, 3]] @
      replicate 9 [0, 1, 0, 0, 3, 1, 2, 3])
     [(1, ''steel''), (2, ''alu'')] =
     ([''**'' @ nl, ''** e.inp'' @ nl, ''** Gegenereerd door mesh2inp.py.'' @ nl, ''**'' @ nl,
       ''*ELEMENT, TYPE=S6, ELSET=Eall'' @ nl,
       ''*ELSET,ELSET=Esteel'' @ nl,
       ''1, 2, 3, 4, 5, 6, 7, 8, 9, 11, 12, 13, 14, 15, 16, 17,'' @ nl,
       ''18, 19,'' @ nl,
       ''*ELSET,ELSET=Ealu'' @ nl, ''10,'' @ nl], None)"
proof -
  have wf: "\<forall>e \<in> set (replicate 9 [0, 1, 0, 0, 3, 1, 2, 3] @ [[0, 2, 0, 0, 3, 1, 2, 3]] @
      replicate 9 [0, 1, 0, 0, 3, 1, 2, 3 :: int]). 5 \<le> length e \<and> (e ! 4 = 6 \<longrightarrow> 11 \<le> length e)"
    by auto
  show ?thesis
  proof (intro conjI)
    show "list_all (\<lambda>e. 5 \<le> length e \<and> (e ! 4 = 6 \<longrightarrow> 11 \<le> length e))
       (replicate 9 [0, 1, 0, 0, 3, 1, 2, 3] @ [[0, 2, 0, 0, 3, 1, 2, 3]] @
        replicate 9 [0, 1, 0, 0, 3, 1, 2, 3 :: int])"
      using wf by (simp only: list_all_iff)
  next
    show "elements_out ''e.inp''
     (replicate 9 [0, 1, 0, 0, 3, 1, 2, 3] @ [[0, 2, 0, 0, 3, 1, 2, 3]] @
      replicate 9 [0, 1, 0, 0, 3, 1, 2, 3])
     [(1, ''steel''), (2, ''alu'')] =
     ([''**'' @ nl, ''** e.inp'' @ nl, ''** Gegenereerd door mesh2inp.py.'' @ nl, ''**'' @ nl,
       ''*ELEMENT, TYPE=S6, ELSET=Eall'' @ nl,
       ''*ELSET,ELSET=Esteel'' @ nl,
       ''1, 2, 3, 4, 5, 6, 7, 8, 9, 11, 12, 13, 14, 15, 16, 17,'' @ nl,
       ''18, 19,'' @ nl,
       ''*ELSET,ELSET=Ealu'' @ nl, ''10,'' @ nl], None)"
      by (subst conjunct1 [OF element_sets [OF wf]]) code_simp
  qed
qed

subsection \<open>Node sets of the materials\<close>

lemma node_record_triple:
  assumes "length p = 3"
  shows "node_record (n, p) =
    emit [str_int n @ '', '' @ format_2f (p ! 0) @ '', '' @ format_2f (p ! 1) @ '', '' @
          format_2f (p ! 2) @ nl]"
proof -
  from assms obtain x y z where "p = [x, y, z]"
    by (auto simp: numeral_3_eq_3 length_Suc_conv)
  then show ?thesis by (simp add: node_record_def)
qed

lemma node_record_bad:
  assumes "length p \<noteq> 3"
  shows "node_record (n, p) = ([], Some ValueError)"
  using assms by (auto simp: node_record_def split: list.splits)

lemma node_loop:
  assumes "\<forall>p \<in> set points. length p = 3"
  shows "for_each node_record (enumerate1 points) =
    (map (\<lambda>i. str_int (int i + 1) @ '', '' @ format_2f (points ! i ! 0) @ '', '' @
                format_2f (points ! i ! 1) @ '', '' @ format_2f (points ! i ! 2) @ nl)
       [0 ..< length points], None)"
proof -
  have c: "node_record (int i + 1, points ! i) =
      ([str_int (int i + 1) @ '', '' @ format_2f (points ! i ! 0) @ '', '' @
                format_2f (points ! i ! 1) @ '', '' @ format_2f (points ! i ! 2) @ nl], None)"
    if "i < length points" for i
    using that assms by (simp add: node_record_triple emit_def)
  have "for_each node_record (enumerate1 points) =
      (concat (map (\<lambda>x. fst (node_record x)) (enumerate1 points)), None)"
    by (rule for_each_ok) (auto simp: enumerate1_nth c)
  also have "map (\<lambda>x. fst (node_record x)) (enumerate1 points) =
      map (\<lambda>i. [str_int (int i + 1) @ '', '' @ format_2f (points ! i ! 0) @ '', '' @
                format_2f (points ! i ! 1) @ '', '' @ format_2f (points ! i ! 2) @ nl])
        [0 ..< length points]"
    by (simp add: enumerate1_nth c)
  finally show ?thesis by (simp only: concat_map_singleton)
qed

lemma select_material_ok:
  "(\<And>e. e \<in> set els \<Longrightarrow> 2 \<le> length e) \<Longrightarrow>
   select_material matnum els = Inr (filter (\<lambda>e. e ! 1 = matnum) els)"
proof (induction els)
  case Nil
  then show ?case by simp
next
  case (Cons el els)
  from Cons.prems [of el] have "getitem el 1 = Inr (el ! 1)" by (simp add: getitem_def)
  moreover have "select_material matnum els = Inr (filter (\<lambda>e. e ! 1 = matnum) els)"
    by (rule Cons.IH) (use Cons.prems in auto)
  ultimately show ?case by simp
qed

lemma node_union_ok:
  "(\<And>e. e \<in> set es \<Longrightarrow> 5 \<le> length e \<and> 0 \<le> e ! 4) \<Longrightarrow>
   node_union es nset = Inr (nset \<union> (\<Union>e \<in> set es. set (take (nat (e ! 4)) (drop 5 e))))"
proof (induction es arbitrary: nset)
  case Nil
  then show ?case by simp
next
  case (Cons e es)
  then have e: "5 \<le> length e" "0 \<le> e ! 4" by simp_all
  then have g: "getitem e 4 = Inr (e ! 4)" by (simp add: getitem_def)
  have s: "py_slice e 5 (5 + e ! 4) = take (nat (e ! 4)) (drop 5 e)"
    using py_slice_take_drop [of 5 "e ! 4" e] e by simp
  have "node_union es (nset \<union> set (take (nat (e ! 4)) (drop 5 e))) =
      Inr ((nset \<union> set (take (nat (e ! 4)) (drop 5 e))) \<union>
           (\<Union>e \<in> set es. set (take (nat (e ! 4)) (drop 5 e))))"
    by (rule Cons.IH) (use Cons.prems in auto)
  then show ?case by (simp add: g s Un_assoc)
qed

lemma material_set_ok:
  assumes "\<forall>e \<in> set elements. 5 \<le> length e \<and> 0 \<le> e ! 4"
  shows "material_set elements (matnum, matname) =
    ((''*NSET,NSET=N'' @ matname @ nl) #
     map (\<lambda>sub. ''  '' @ join '', '' (map str_int sub) @ nl)
       (chunks_from (sorted_list_of_set
          (\<Union>e \<in> {e \<in> set elements. e ! 1 = matnum}. set (take (nat (e ! 4)) (drop 5 e)))) 16 0),
     None)"
proof -
  have "select_material matnum elements = Inr (filter (\<lambda>e. e ! 1 = matnum) elements)"
    by (rule select_material_ok) (use assms in fastforce)
  moreover have "node_union (filter (\<lambda>e. e ! 1 = matnum) elements) {} =
      Inr ({} \<union> (\<Union>e \<in> set (filter (\<lambda>e. e ! 1 = matnum) elements).
                    set (take (nat (e ! 4)) (drop 5 e))))"
    by (rule node_union_ok) (use assms in auto)
  ultimately show ?thesis
    by (simp add: material_set_def guarded_def then_out_emit id_lines_unfold)
qed

lemma material_set_loop:
  assumes "\<forall>e \<in> set elements. 5 \<le> length e \<and> 0 \<le> e ! 4"
  shows "for_each (material_set elements) materials =
    (concat (map (\<lambda>(matnum, matname). (''*NSET,NSET=N'' @ matname @ nl) #
       map (\<lambda>sub. ''  '' @ join '', '' (map str_int sub) @ nl)
         (chunks_from (sorted_list_of_set
            (\<Union>e \<in> {e \<in> set elements. e ! 1 = matnum}. set (take (nat (e ! 4)) (drop 5 e)))) 16 0))
      materials), None)"
proof -
  have "for_each (material_set elements) materials =
      (concat (map (\<lambda>x. fst (material_set elements x)) materials), None)"
    by (rule for_each_ok) (auto simp: material_set_ok [OF assms])
  also have "map (\<lambda>x. fst (material_set elements x)) materials =
      map (\<lambda>(matnum, matname). (''*NSET,NSET=N'' @ matname @ nl) #
       map (\<lambda>sub. ''  '' @ join '', '' (map str_int sub) @ nl)
         (chunks_from (sorted_list_of_set
            (\<Union>e \<in> {e \<in> set elements. e ! 1 = matnum}. set (take (nat (e ! 4)) (drop 5 e)))) 16 0))
      materials"
    by (auto simp: material_set_ok [OF assms])
  finally show ?thesis .
qed

lemma edge_set_unfold:
  "edge_set (k, nodes) =
    ((''*NSET,NSET=Nedge'' @ str_int k @ nl) #
     map (\<lambda>sub. ''  '' @ join '', '' (map str_int sub) @ nl)
       (chunks_from (sorted_list_of_set nodes) 16 0), None)"
  by (simp add: edge_set_def then_out_emit id_lines_unfold)

lemma edge_set_loop:
  "for_each edge_set eb =
    (concat (map (\<lambda>(k, nodes). (''*NSET,NSET=Nedge'' @ str_int k @ nl) #
       map (\<lambda>sub. ''  '' @ join '', '' (map str_int sub) @ nl)
         (chunks_from (sorted_list_of_set nodes) 16 0)) eb), None)"
proof -
  have "for_each edge_set eb = (concat (map (\<lambda>x. fst (edge_set x)) eb), None)"
    by (rule for_each_ok) (auto simp: edge_set_unfold)
  also have "map (\<lambda>x. fst (edge_set x)) eb =
      map (\<lambda>(k, nodes). (''*NSET,NSET=Nedge'' @ str_int k @ nl) #
       map (\<lambda>sub. ''  '' @ join '', '' (map str_int sub) @ nl)
         (chunks_from (sorted_list_of_set nodes) 16 0)) eb"
    by (auto simp: edge_set_unfold)
  finally show ?thesis .
qed

text \<open>
  Claim C2. Where every point has three coordinates and every element record has its
  node count, which is not negative, \<open>write_nodes\<close> writes after the node records, for
  each material \<open>(id, name)\<close> in order, the line \<open>*NSET,NSET=N<name>\<close> and then the ids of
  a set, ascending and cut into chunks of 16: the union, over the records whose second
  field is \<open>id\<close>, of the ids in the record's fields 6 to 5 + node count. The ids written
  are strictly ascending and are exactly the members of that union.
\<close>

theorem material_node_sets:
  assumes "\<forall>p \<in> set points. length p = 3"
    and "\<forall>e \<in> set elements. 5 \<le> length e \<and> 0 \<le> e ! 4"
  shows "nodes_out name points elements materials eb =
    (header name @ [''*NODE,NSET=Nall'' @ nl] @
     fst (for_each node_record (enumerate1 points)) @
     concat (map (\<lambda>(matnum, matname). (''*NSET,NSET=N'' @ matname @ nl) #
       map (\<lambda>sub. ''  '' @ join '', '' (map str_int sub) @ nl)
         (chunks_from (sorted_list_of_set
            (\<Union>e \<in> {e \<in> set elements. e ! 1 = matnum}. set (take (nat (e ! 4)) (drop 5 e)))) 16 0))
      materials) @
     fst (for_each edge_set eb), None) \<and>
    (\<forall>matnum.
       sorted_wrt (<) (sorted_list_of_set
         (\<Union>e \<in> {e \<in> set elements. e ! 1 = matnum}. set (take (nat (e ! 4)) (drop 5 e)))) \<and>
       set (sorted_list_of_set
         (\<Union>e \<in> {e \<in> set elements. e ! 1 = matnum}. set (take (nat (e ! 4)) (drop 5 e)))) =
       (\<Union>e \<in> {e \<in> set elements. e ! 1 = matnum}. set (take (nat (e ! 4)) (drop 5 e))))"
proof -
  have fin: "finite (\<Union>e \<in> {e \<in> set elements. e ! 1 = matnum}. set (take (nat (e ! 4)) (drop 5 e)))"
    for matnum by simp
  show ?thesis
    using fin
    by (simp add: nodes_out_def then_out_emit node_loop [OF assms(1)]
        material_set_loop [OF assms(2)] edge_set_loop) 
qed

text \<open>
  Two records of material 1 that share nodes 2 and 3, given out of order, and one record
  of material 2.
\<close>

theorem material_node_sets_witness:
  "list_all (\<lambda>p. length p = 3) [[Finite False 0 0, Finite False 0 0, Finite False 0 0]] \<and>
   list_all (\<lambda>e. 5 \<le> length e \<and> 0 \<le> e ! 4)
     [[1, 1, 0, 0, 3, 3, 1, 2], [2, 1, 0, 0, 3, 2, 3, 4], [3, 2, 0, 0, 3, 9, 8, 7 :: int]] \<and>
   nodes_out ''n.inp'' [[Finite False 0 0, Finite False 0 0, Finite False 0 0]]
     [[1, 1, 0, 0, 3, 3, 1, 2], [2, 1, 0, 0, 3, 2, 3, 4], [3, 2, 0, 0, 3, 9, 8, 7]]
     [(1, ''steel''), (2, ''alu'')] [] =
     ([''**'' @ nl, ''** n.inp'' @ nl, ''** Gegenereerd door mesh2inp.py.'' @ nl, ''**'' @ nl,
       ''*NODE,NSET=Nall'' @ nl,
       ''1, 0.00, 0.00, 0.00'' @ nl,
       ''*NSET,NSET=Nsteel'' @ nl, ''  1, 2, 3, 4'' @ nl,
       ''*NSET,NSET=Nalu'' @ nl, ''  7, 8, 9'' @ nl], None)"
proof -
  have wp: "\<forall>p \<in> set [[Finite False 0 0, Finite False 0 0, Finite False 0 0]]. length p = 3"
    by simp
  have we: "\<forall>e \<in> set [[1, 1, 0, 0, 3, 3, 1, 2], [2, 1, 0, 0, 3, 2, 3, 4],
      [3, 2, 0, 0, 3, 9, 8, 7 :: int]]. 5 \<le> length e \<and> 0 \<le> e ! 4"
    by simp
  show ?thesis
  proof (intro conjI)
    show "list_all (\<lambda>p. length p = 3) [[Finite False 0 0, Finite False 0 0, Finite False 0 0]]"
      by simp
  next
    show "list_all (\<lambda>e. 5 \<le> length e \<and> 0 \<le> e ! 4)
       [[1, 1, 0, 0, 3, 3, 1, 2], [2, 1, 0, 0, 3, 2, 3, 4], [3, 2, 0, 0, 3, 9, 8, 7 :: int]]"
      by simp
  next
    show "nodes_out ''n.inp'' [[Finite False 0 0, Finite False 0 0, Finite False 0 0]]
     [[1, 1, 0, 0, 3, 3, 1, 2], [2, 1, 0, 0, 3, 2, 3, 4], [3, 2, 0, 0, 3, 9, 8, 7]]
     [(1, ''steel''), (2, ''alu'')] [] =
     ([''**'' @ nl, ''** n.inp'' @ nl, ''** Gegenereerd door mesh2inp.py.'' @ nl, ''**'' @ nl,
       ''*NODE,NSET=Nall'' @ nl,
       ''1, 0.00, 0.00, 0.00'' @ nl,
       ''*NSET,NSET=Nsteel'' @ nl, ''  1, 2, 3, 4'' @ nl,
       ''*NSET,NSET=Nalu'' @ nl, ''  7, 8, 9'' @ nl], None)"
      by (subst conjunct1 [OF material_node_sets [OF wp we]]) code_simp
  qed
qed

subsection \<open>Node records\<close>

lemma isdigit_digit_char: "d < 10 \<Longrightarrow> isdigit (digit_char d)"
  unfolding isdigit_def digit_char_def by (rule nth_mem) simp

lemma str_nat_digits: "str_nat n \<noteq> [] \<and> list_all isdigit (str_nat n)"
proof (induction n rule: str_nat.induct)
  case (1 n)
  show ?case
  proof (cases "n < 10")
    case True
    then show ?thesis by (subst (1 2) str_nat.simps) (simp add: isdigit_digit_char)
  next
    case False
    with 1 show ?thesis by (subst (1 2) str_nat.simps) (simp add: isdigit_digit_char)
  qed
qed

lemma format_2f_finite:
  "\<exists>ip d1 d2. format_2f (Finite neg m e) = (if neg then ''-'' else []) @ ip @ ''.'' @ [d1, d2] \<and>
     ip \<noteq> [] \<and> list_all isdigit ip \<and> isdigit d1 \<and> isdigit d2"
proof -
  define h where "h = (if 0 \<le> e then m * 2 ^ nat e * 100
                       else round_half_even (m * 100) (2 ^ nat (- e)))"
  have "format_2f (Finite neg m e) = (if neg then ''-'' else []) @ str_nat (h div 100) @ ''.'' @
      [digit_char (h mod 100 div 10), digit_char (h mod 10)]"
    by (simp add: format_2f_def h_def Let_def)
  moreover have "isdigit (digit_char (h mod 100 div 10))" "isdigit (digit_char (h mod 10))"
    by (simp_all add: isdigit_digit_char)
  ultimately show ?thesis
    using str_nat_digits [of "h div 100"] by blast
qed

text \<open>
  Claim C9, as amended. Where every point has three coordinates, \<open>write_nodes\<close> writes
  after the \<open>*NODE\<close> line exactly one record per point, in the order of the points: the
  point's number, counted from 1, and its three coordinates, each as \<open>{x:.2f}\<close> writes
  it. A finite coordinate is written as an optional minus sign, at least one digit, a
  point and exactly two digits. A coordinate that is NaN or infinite is written \<open>nan\<close>,
  \<open>inf\<close> or \<open>-inf\<close>.
\<close>

theorem node_records:
  assumes "\<forall>p \<in> set points. length p = 3"
  shows "nodes_out name points elements materials eb =
    (header name @ [''*NODE,NSET=Nall'' @ nl] @
     map (\<lambda>i. str_int (int i + 1) @ '', '' @ format_2f (points ! i ! 0) @ '', '' @
                format_2f (points ! i ! 1) @ '', '' @ format_2f (points ! i ! 2) @ nl)
       [0 ..< length points] @
     fst (then_out (for_each (material_set elements) materials) (for_each edge_set eb)),
     snd (then_out (for_each (material_set elements) materials) (for_each edge_set eb))) \<and>
    (\<forall>neg m e. \<exists>ip d1 d2.
       format_2f (Finite neg m e) = (if neg then ''-'' else []) @ ip @ ''.'' @ [d1, d2] \<and>
       ip \<noteq> [] \<and> list_all isdigit ip \<and> isdigit d1 \<and> isdigit d2) \<and>
    format_2f NaN = ''nan'' \<and> format_2f (Infinite False) = ''inf'' \<and>
    format_2f (Infinite True) = ''-inf''"
proof -
  have "nodes_out name points elements materials eb =
    (header name @ [''*NODE,NSET=Nall'' @ nl] @
     map (\<lambda>i. str_int (int i + 1) @ '', '' @ format_2f (points ! i ! 0) @ '', '' @
                format_2f (points ! i ! 1) @ '', '' @ format_2f (points ! i ! 2) @ nl)
       [0 ..< length points] @
     fst (then_out (for_each (material_set elements) materials) (for_each edge_set eb)),
     snd (then_out (for_each (material_set elements) materials) (for_each edge_set eb)))"
    by (simp add: nodes_out_def then_out_emit node_loop [OF assms])
  moreover have "format_2f NaN = ''nan''" "format_2f (Infinite False) = ''inf''"
    "format_2f (Infinite True) = ''-inf''"
    by (simp_all add: format_2f_def)
  ultimately show ?thesis
    using format_2f_finite by blast
qed

text \<open>The points \<open>(1.5, 0, -0.125)\<close> and \<open>(100, -0, 0.005)\<close>, as \<open>float\<close> reads them.\<close>

theorem node_records_witness:
  "list_all (\<lambda>p. length p = 3)
     [[Finite False 6755399441055744 (- 52), Finite False 0 0, Finite True 4503599627370496 (- 55)],
      [Finite False 7036874417766400 (- 46), Finite True 0 0, Finite False 5764607523034235 (- 60)]] \<and>
   nodes_out ''n.inp''
     [[Finite False 6755399441055744 (- 52), Finite False 0 0, Finite True 4503599627370496 (- 55)],
      [Finite False 7036874417766400 (- 46), Finite True 0 0, Finite False 5764607523034235 (- 60)]]
     [] [] [] =
     ([''**'' @ nl, ''** n.inp'' @ nl, ''** Gegenereerd door mesh2inp.py.'' @ nl, ''**'' @ nl,
       ''*NODE,NSET=Nall'' @ nl,
       ''1, 1.50, 0.00, -0.12'' @ nl,
       ''2, 100.00, -0.00, 0.01'' @ nl], None)"
proof -
  have wp: "\<forall>p \<in> set
     [[Finite False 6755399441055744 (- 52), Finite False 0 0, Finite True 4503599627370496 (- 55)],
      [Finite False 7036874417766400 (- 46), Finite True 0 0, Finite False 5764607523034235 (- 60)]].
     length p = 3"
    by simp
  show ?thesis
  proof (intro conjI)
    show "list_all (\<lambda>p. length p = 3)
     [[Finite False 6755399441055744 (- 52), Finite False 0 0, Finite True 4503599627370496 (- 55)],
      [Finite False 7036874417766400 (- 46), Finite True 0 0, Finite False 5764607523034235 (- 60)]]"
      by simp
  next
    show "nodes_out ''n.inp''
     [[Finite False 6755399441055744 (- 52), Finite False 0 0, Finite True 4503599627370496 (- 55)],
      [Finite False 7036874417766400 (- 46), Finite True 0 0, Finite False 5764607523034235 (- 60)]]
     [] [] [] =
     ([''**'' @ nl, ''** n.inp'' @ nl, ''** Gegenereerd door mesh2inp.py.'' @ nl, ''**'' @ nl,
       ''*NODE,NSET=Nall'' @ nl,
       ''1, 1.50, 0.00, -0.12'' @ nl,
       ''2, 100.00, -0.00, 0.01'' @ nl], None)"
      by (subst conjunct1 [OF node_records [OF wp]])
         (simp add: header_def str_int_def str_nat.simps digit_char_def format_2f_def
            round_half_even_def)
  qed
qed


text \<open>
  Claim C9 as stated fails. A mesh file whose only point is \<open>nan 0 0\<close> is read without
  error, and the record written for the point has \<open>nan\<close> for its first coordinate, which
  has no decimal digits.
\<close>

theorem node_records_counterexample:
  "fst (main [''in.mesh'', ''n.inp'', ''e.inp'']
     [''in.mesh'' \<mapsto> ''points'' @ nl @ ''1'' @ nl @ ''nan 0 0'' @ nl @
        ''surfaceelements'' @ nl @ ''0'' @ nl @ ''materials'' @ nl @ ''0'' @ nl @
        ''edgesegmentsgi2'' @ nl @ ''0'' @ nl]) = Inr () \<and>
   snd (main [''in.mesh'', ''n.inp'', ''e.inp'']
     [''in.mesh'' \<mapsto> ''points'' @ nl @ ''1'' @ nl @ ''nan 0 0'' @ nl @
        ''surfaceelements'' @ nl @ ''0'' @ nl @ ''materials'' @ nl @ ''0'' @ nl @
        ''edgesegmentsgi2'' @ nl @ ''0'' @ nl]) ''n.inp'' =
     Some (''**'' @ nl @ ''** n.inp'' @ nl @ ''** Gegenereerd door mesh2inp.py.'' @ nl @
        ''**'' @ nl @ ''*NODE,NSET=Nall'' @ nl @ ''1, nan, 0.00, 0.00'' @ nl)"
  by code_simp

subsection \<open>Output file names\<close>

text \<open>
  Claim C10. \<open>write_elements\<close> writes the file at exactly the path it is given, whatever
  its ending, and the second line of the file is \<open>**\<close>, a space and that path.
  \<open>write_nodes\<close> does the same with the path it is given when the path ends in \<open>.inp\<close>,
  and with the path followed by \<open>.inp\<close> when it does not. Neither changes another file.
\<close>

theorem output_file_names:
  "snd (write_elements name elements materials fs) =
     fs(name \<mapsto> concat (fst (elements_out name elements materials))) \<and>
   take 2 (fst (elements_out name elements materials)) = [''**'' @ nl, ''** '' @ name @ nl] \<and>
   snd (write_nodes name points elements materials eb fs) =
     (if endswith name ''.inp''
      then fs(name \<mapsto> concat (fst (nodes_out name points elements materials eb)))
      else fs(name @ ''.inp'' \<mapsto>
             concat (fst (nodes_out (name @ ''.inp'') points elements materials eb)))) \<and>
   take 2 (fst (nodes_out name points elements materials eb)) = [''**'' @ nl, ''** '' @ name @ nl]"
  by (simp add: write_elements_def write_nodes_def elements_out_def nodes_out_def then_out_emit
      header_def split: prod.splits)

text \<open>The paths \<open>elems\<close> and \<open>nodes\<close>, in an empty file system.\<close>

theorem output_file_names_witness:
  "snd (write_elements ''elems'' [] [] Map.empty) ''elems'' =
     Some (''**'' @ nl @ ''** elems'' @ nl @ ''** Gegenereerd door mesh2inp.py.'' @ nl @
           ''**'' @ nl @ ''*ELEMENT, TYPE=S6, ELSET=Eall'' @ nl) \<and>
   snd (write_elements ''elems'' [] [] Map.empty) ''elems.inp'' = None \<and>
   snd (write_nodes ''nodes'' [] [] [] [] Map.empty) ''nodes.inp'' =
     Some (''**'' @ nl @ ''** nodes.inp'' @ nl @ ''** Gegenereerd door mesh2inp.py.'' @ nl @
           ''**'' @ nl @ ''*NODE,NSET=Nall'' @ nl) \<and>
   snd (write_nodes ''nodes'' [] [] [] [] Map.empty) ''nodes'' = None"
proof -
  note t = output_file_names [of "''elems''" "[]" "[]" Map.empty "[]" "[]"]
  note u = output_file_names [of "''nodes''" "[]" "[]" Map.empty "[]" "[]"]
  have e: "fst (elements_out ''elems'' [] []) =
      [''**'' @ nl, ''** elems'' @ nl, ''** Gegenereerd door mesh2inp.py.'' @ nl, ''**'' @ nl,
       ''*ELEMENT, TYPE=S6, ELSET=Eall'' @ nl]"
    by code_simp
  have n: "fst (nodes_out ''nodes.inp'' [] [] [] []) =
      [''**'' @ nl, ''** nodes.inp'' @ nl, ''** Gegenereerd door mesh2inp.py.'' @ nl, ''**'' @ nl,
       ''*NODE,NSET=Nall'' @ nl]"
    by code_simp
  have w: "\<not> endswith ''nodes'' ''.inp''"
    by code_simp
  show ?thesis
    using t u by (simp add: e n w)
qed

subsection \<open>The lines of the mesh file\<close>

lemma strip_ends:
  "strip s \<noteq> [] \<Longrightarrow> \<not> isspace (hd (strip s)) \<and> \<not> isspace (last (strip s))"
proof -
  assume ne: "strip s \<noteq> []"
  define t where "t = dropWhile isspace s"
  define u where "u = rev (dropWhile isspace (rev t))"
  have su: "strip s = u" by (simp add: strip_def t_def u_def)
  with ne have u: "u \<noteq> []" by simp
  then have d: "dropWhile isspace (rev t) \<noteq> []" by (simp add: u_def)
  have "last u = hd (dropWhile isspace (rev t))"
    using d by (simp add: u_def last_rev)
  with d have l: "\<not> isspace (last u)" by (simp add: hd_dropWhile)
  have "rev (takeWhile isspace (rev t) @ dropWhile isspace (rev t)) = t"
    by (simp only: takeWhile_dropWhile_id rev_rev_ident)
  then have tu: "t = u @ rev (takeWhile isspace (rev t))"
    by (simp only: rev_append u_def)
  with u have "t \<noteq> []" "hd t = hd u" by (metis append_is_Nil_conv, metis hd_append2)
  then have "\<not> isspace (hd u)" by (metis hd_dropWhile t_def)
  with l su show ?thesis by simp
qed

lemma strip_strip: "strip (strip s) = strip s"
proof (cases "strip s = []")
  case True
  then have "strip (strip s) = strip []" by simp
  also have "strip [] = []" by (simp add: strip_def)
  finally show ?thesis using True by simp
next
  case False
  then have e: "\<not> isspace (hd (strip s))" "\<not> isspace (last (strip s))"
    using strip_ends by simp_all
  from False e(1) have a: "dropWhile isspace (strip s) = strip s"
    by (simp add: dropWhile_eq_self_iff)
  from False e(2) have b: "dropWhile isspace (rev (strip s)) = rev (strip s)"
    by (simp add: dropWhile_eq_self_iff hd_rev)
  show ?thesis
    by (subst (1) strip_def) (simp add: a b)
qed

lemma lines_from_concat: "concat (lines_from cur s) = cur @ s"
  by (induction s arbitrary: cur) simp_all

lemma lines_from_shape:
  "CHR 0x0A \<notin> set cur \<Longrightarrow>
   \<forall>raw \<in> set (lines_from cur s). raw \<noteq> [] \<and> CHR 0x0A \<notin> set (butlast raw)"
proof (induction s arbitrary: cur)
  case Nil
  then show ?case by (auto dest: in_set_butlastD)
next
  case (Cons c cs)
  show ?case
  proof (cases "c = CHR 0x0A")
    case True
    with Cons.prems Cons.IH [of "[]"] show ?thesis by simp
  next
    case False
    with Cons.prems Cons.IH [of "cur @ [c]"] show ?thesis by simp
  qed
qed

lemma lines_from_ends:
  "\<forall>raw \<in> set (butlast (lines_from cur s)). last raw = CHR 0x0A"
proof (induction s arbitrary: cur)
  case Nil
  then show ?case by simp
next
  case (Cons c cs)
  show ?case
  proof (cases "c = CHR 0x0A")
    case True
    with Cons.IH [of "[]"] show ?thesis by simp
  next
    case False
    with Cons.IH [of "cur @ [c]"] show ?thesis by simp
  qed
qed

text \<open>
  Claim C5, as amended. The lines that the section keywords are looked up in are the
  lines of the file, in their order, each trimmed, without those that start with \<open>#\<close>
  after trimming, and no other line: a line is among them exactly if it is the
  trimmed form of a line of the file and does not start with \<open>#\<close>. So every one of them
  is trimmed (it has no whitespace at either end) and none starts with \<open>#\<close>; an empty
  line is not removed. The lines of the file are its pieces up to and with each newline:
  together they are the file as read, none is empty, and a newline stands only at the end
  of a line and ends every line but the last.
\<close>

theorem mesh_lines_trimmed:
  "mesh_lines text =
     map strip (filter (\<lambda>raw. \<not> startswith (strip raw) ''#'') (readlines text)) \<and>
   (\<forall>ln. ln \<in> set (mesh_lines text) \<longleftrightarrow>
      (\<exists>raw \<in> set (readlines text). ln = strip raw) \<and> \<not> startswith ln ''#'') \<and>
   (\<forall>ln \<in> set (mesh_lines text).
      strip ln = ln \<and> \<not> startswith ln ''#'' \<and>
      (ln \<noteq> [] \<longrightarrow> \<not> isspace (hd ln) \<and> \<not> isspace (last ln))) \<and>
   ([] \<in> set (map strip (readlines text)) \<longrightarrow> [] \<in> set (mesh_lines text)) \<and>
   concat (readlines text) = universal_newlines text \<and>
   (\<forall>raw \<in> set (readlines text). raw \<noteq> [] \<and> CHR 0x0A \<notin> set (butlast raw)) \<and>
   (\<forall>raw \<in> set (butlast (readlines text)). last raw = CHR 0x0A)"
proof -
  have a: "mesh_lines text =
     map strip (filter (\<lambda>raw. \<not> startswith (strip raw) ''#'') (readlines text))"
    by (simp add: mesh_lines_def filter_map comp_def)
  have b: "ln \<in> set (mesh_lines text) \<longleftrightarrow>
      (\<exists>raw \<in> set (readlines text). ln = strip raw) \<and> \<not> startswith ln ''#''" for ln
    by (auto simp: mesh_lines_def)
  have c: "strip ln = ln \<and> \<not> startswith ln ''#'' \<and>
      (ln \<noteq> [] \<longrightarrow> \<not> isspace (hd ln) \<and> \<not> isspace (last ln))"
    if "ln \<in> set (mesh_lines text)" for ln
  proof -
    from that obtain raw where "ln = strip raw" "\<not> startswith ln ''#''"
      by (auto simp: mesh_lines_def)
    then show ?thesis using strip_strip [of raw] strip_ends [of raw] by simp
  qed
  have d: "[] \<in> set (mesh_lines text)" if "[] \<in> set (map strip (readlines text))"
    using that by (simp add: mesh_lines_def startswith_def)
  have e: "concat (readlines text) = universal_newlines text"
    by (simp add: readlines_def lines_from_concat)
  have f: "\<forall>raw \<in> set (readlines text). raw \<noteq> [] \<and> CHR 0x0A \<notin> set (butlast raw)"
    unfolding readlines_def by (rule lines_from_shape) simp
  have g: "\<forall>raw \<in> set (butlast (readlines text)). last raw = CHR 0x0A"
    unfolding readlines_def by (rule lines_from_ends)
  from a b c d e f g show ?thesis by blast
qed

text \<open>
  A comment, a keyword with blanks around it, an empty line, a material line with a
  \<open>#\<close> inside, and a count.
\<close>

theorem mesh_lines_trimmed_witness:
  "mesh_lines (''  # a comment'' @ nl @ '' points  '' @ nl @ nl @ ''7 a#b'' @ nl @ ''0'' @ nl) =
     [''points'', [], ''7 a#b'', ''0''] \<and>
   readlines (''  # a comment'' @ nl @ '' points  '' @ nl @ nl @ ''7 a#b'' @ nl @ ''0'' @ nl) =
     [''  # a comment'' @ nl, '' points  '' @ nl, nl, ''7 a#b'' @ nl, ''0'' @ nl] \<and>
   list_all (\<lambda>ln. strip ln = ln \<and> \<not> startswith ln ''#'')
     (mesh_lines (''  # a comment'' @ nl @ '' points  '' @ nl @ nl @ ''7 a#b'' @ nl @ ''0'' @ nl)) \<and>
   [] \<in> set (map strip (readlines
     (''  # a comment'' @ nl @ '' points  '' @ nl @ nl @ ''7 a#b'' @ nl @ ''0'' @ nl)))"
proof -
  have r: "readlines (''  # a comment'' @ nl @ '' points  '' @ nl @ nl @ ''7 a#b'' @ nl @ ''0'' @ nl) =
     [''  # a comment'' @ nl, '' points  '' @ nl, nl, ''7 a#b'' @ nl, ''0'' @ nl]"
    by code_simp
  have e: "[] \<in> set (map strip (readlines
     (''  # a comment'' @ nl @ '' points  '' @ nl @ nl @ ''7 a#b'' @ nl @ ''0'' @ nl)))"
    by code_simp
  note t = mesh_lines_trimmed
    [of "''  # a comment'' @ nl @ '' points  '' @ nl @ nl @ ''7 a#b'' @ nl @ ''0'' @ nl"]
  have m: "mesh_lines (''  # a comment'' @ nl @ '' points  '' @ nl @ nl @ ''7 a#b'' @ nl @ ''0'' @ nl) =
     [''points'', [], ''7 a#b'', ''0'']"
    by (subst conjunct1 [OF t]) code_simp
  from t have "list_all (\<lambda>ln. strip ln = ln \<and> \<not> startswith ln ''#'')
     (mesh_lines (''  # a comment'' @ nl @ '' points  '' @ nl @ nl @ ''7 a#b'' @ nl @ ''0'' @ nl))"
    unfolding list_all_iff by blast
  with m r e show ?thesis by blast
qed

text \<open>
  Claim C5 as stated fails: the empty line between the keyword and the count is among
  the lines that the sections are read from.
\<close>

theorem mesh_lines_counterexample:
  "mesh_lines (''points'' @ nl @ nl @ ''0'' @ nl) = [''points'', [], ''0'']"
  by code_simp

subsection \<open>Edge boundaries\<close>

lemma and_then_Inr:
  "and_then r f = Inr y \<longleftrightarrow> (\<exists>x. r = Inr x \<and> f x = Inr y)"
  by (cases r) simp_all

lemma map_of_set_add_present:
  "map_of (map (\<lambda>(k, s). if k = key then (k, insert v s) else (k, s)) d) k =
     (if k = key then map_option (insert v) (map_of d k) else map_of d k)"
  by (induction d) auto

lemma set_add_distinct:
  assumes "distinct (map fst d)"
  shows "distinct (map fst (set_add key v d))"
proof (cases "key \<in> fst ` set d")
  case True
  have h: "map fst (map (\<lambda>(k, s). if k = key then (k, insert v s) else (k, s)) d) = map fst d"
    by (induction d) auto
  have "set_add key v d = map (\<lambda>(k, s). if k = key then (k, insert v s) else (k, s)) d"
    using True by (simp add: set_add_def)
  then show ?thesis using assms by (simp only: h)
next
  case False
  with assms show ?thesis by (simp add: set_add_def)
qed

lemma set_add_map_of:
  "map_of (set_add key v d) =
     (map_of d)(key \<mapsto> insert v (case map_of d key of None \<Rightarrow> {} | Some s \<Rightarrow> s))"
proof (cases "key \<in> fst ` set d")
  case True
  then obtain s where s: "map_of d key = Some s"
    by (metis domD dom_map_of_conv_image_fst)
  show ?thesis
  proof (rule ext)
    fix k
    show "map_of (set_add key v d) k =
      ((map_of d)(key \<mapsto> insert v (case map_of d key of None \<Rightarrow> {} | Some s \<Rightarrow> s))) k"
      using True s by (simp add: set_add_def map_of_set_add_present)
  qed
next
  case False
  then have n: "map_of d key = None"
    by (simp add: map_of_eq_None_iff)
  show ?thesis
  proof (rule ext)
    fix k
    show "map_of (set_add key v d) k =
      ((map_of d)(key \<mapsto> insert v (case map_of d key of None \<Rightarrow> {} | Some s \<Rightarrow> s))) k"
      using False n by (auto simp: set_add_def map_add_def split: option.splits)
  qed
qed

lemma edge_loop_inv:
  assumes T: "\<And>e. T e = and_then (getitem e 0) py_int"
    and N: "\<And>e v. N e v \<longleftrightarrow>
      and_then (getitem e 2) py_int = Inr v \<or> and_then (getitem e 3) py_int = Inr v"
    and S: "\<And>es k. S es k = {v. \<exists>e \<in> set es. T e = Inr k \<and> N e v}"
    and run: "edge_loop es d = Inr d'" and dist: "distinct (map fst d)"
  shows "distinct (map fst d') \<and>
    (\<forall>k. map_of d' k =
       (if 100 < k \<and> (\<exists>e \<in> set es. T e = Inr k)
        then Some ((case map_of d k of None \<Rightarrow> {} | Some s \<Rightarrow> s) \<union> S es k)
        else map_of d k))"
  using run dist
proof (induction es arbitrary: d)
  case Nil
  then show ?case by simp
next
  case (Cons e es)
  from Cons.prems(1) obtain key where key: "T e = Inr key"
    by (auto simp: and_then_Inr T)
  have S_Cons: "S (e # es) k = (if k = key then {v. N e v} else {}) \<union> S es k" for k
    using key by (auto simp: S)
  have S_none: "S es k = {}" if "\<not> (\<exists>e \<in> set es. T e = Inr k)" for k
    using that by (auto simp: S)
  have has_Cons: "(\<exists>e' \<in> set (e # es). T e' = Inr k) \<longleftrightarrow>
      k = key \<or> (\<exists>e' \<in> set es. T e' = Inr k)" for k
    using key by auto
  show ?case
  proof (cases "100 < key")
    case True
    with Cons.prems(1) key obtain a b where
      a: "and_then (getitem e 2) py_int = Inr a" and
      b: "and_then (getitem e 3) py_int = Inr b" and
      rest: "edge_loop es (set_add key b (set_add key a d)) = Inr d'"
      by (auto simp: and_then_Inr T)
    have Ne: "{v. N e v} = {a, b}"
      using a b by (auto simp: N)
    define d1 where "d1 = set_add key b (set_add key a d)"
    define old where "old = (case map_of d key of None \<Rightarrow> {} | Some s \<Rightarrow> s)"
    have dist1: "distinct (map fst d1)"
      using Cons.prems(2) by (simp add: d1_def set_add_distinct)
    have m1: "map_of d1 = (map_of d)(key \<mapsto> insert b (insert a old))"
      by (simp add: d1_def old_def set_add_map_of)
    from Cons.IH [OF rest [folded d1_def] dist1]
    have d': "distinct (map fst d')"
      and ih: "\<And>k. map_of d' k =
       (if 100 < k \<and> (\<exists>e \<in> set es. T e = Inr k)
        then Some ((case map_of d1 k of None \<Rightarrow> {} | Some s \<Rightarrow> s) \<union> S es k)
        else map_of d1 k)"
      by simp_all
    have "map_of d' k =
       (if 100 < k \<and> (\<exists>e' \<in> set (e # es). T e' = Inr k)
        then Some ((case map_of d k of None \<Rightarrow> {} | Some s \<Rightarrow> s) \<union> S (e # es) k)
        else map_of d k)" for k
    proof (cases "k = key")
      case k: True
      have "map_of d' key = Some (insert b (insert a old) \<union> S es key)"
      proof (cases "\<exists>e' \<in> set es. T e' = Inr key")
        case True
        then show ?thesis using ih [of key] \<open>100 < key\<close> by (simp add: m1)
      next
        case False
        then show ?thesis using ih [of key] S_none [of key] by (simp add: m1)
      qed
      moreover have "old \<union> S (e # es) key = insert b (insert a old) \<union> S es key"
        by (auto simp: S_Cons Ne)
      ultimately show ?thesis
        using k \<open>100 < key\<close> by (simp only: has_Cons old_def [symmetric]) simp
    next
      case k: False
      then have "map_of d1 k = map_of d k" by (simp add: m1)
      with k show ?thesis
        using ih [of k] by (simp only: has_Cons S_Cons) auto
    qed
    with d' show ?thesis by blast
  next
    case False
    with Cons.prems(1) key have rest: "edge_loop es d = Inr d'"
      by (auto simp: and_then_Inr T)
    from Cons.IH [OF rest Cons.prems(2)]
    have d': "distinct (map fst d')"
      and ih: "\<And>k. map_of d' k =
       (if 100 < k \<and> (\<exists>e \<in> set es. T e = Inr k)
        then Some ((case map_of d k of None \<Rightarrow> {} | Some s \<Rightarrow> s) \<union> S es k)
        else map_of d k)"
      by simp_all
    have "map_of d' k =
       (if 100 < k \<and> (\<exists>e' \<in> set (e # es). T e' = Inr k)
        then Some ((case map_of d k of None \<Rightarrow> {} | Some s \<Rightarrow> s) \<union> S (e # es) k)
        else map_of d k)" for k
    proof (cases "k = key")
      case True
      with False show ?thesis using ih [of k] by simp
    next
      case False
      then show ?thesis using ih [of k] by (simp only: has_Cons S_Cons) auto
    qed
    with d' show ?thesis by blast
  qed
qed

lemma parse_mesh_Inr:
  assumes "parse_mesh text = Inr (points, elements, materials, eb)"
  shows "\<exists>pls sls mls els.
    section_lines (mesh_lines text) ''points'' = Inr pls \<and>
    map_raising (\<lambda>ln. map_raising py_float (split_ws ln)) pls = Inr points \<and>
    section_lines (mesh_lines text) ''surfaceelements'' = Inr sls \<and>
    map_raising (\<lambda>ln. map_raising py_int (split_ws ln)) sls = Inr elements \<and>
    section_lines (mesh_lines text) ''materials'' = Inr mls \<and>
    map_raising material_of (map split_ws mls) = Inr materials \<and>
    section_lines (mesh_lines text) ''edgesegmentsgi2'' = Inr els \<and>
    edge_loop (map split_ws els) [] = Inr eb"
  using assms unfolding parse_mesh_def Let_def and_then_Inr by blast

lemma read_mesh_Inr:
  "read_mesh name fs = Inr m \<longleftrightarrow> (\<exists>text. fs name = Some text \<and> parse_mesh text = Inr m)"
  by (simp add: read_mesh_def split: option.splits)

text \<open>
  Claim C4. When \<open>read_mesh\<close> returns, the boundary dictionary has one entry for each tag
  above 100 that is the first token of some line of the \<open>edgesegmentsgi2\<close> section, and
  no other entry: no tag of 100 or less has a set. The set of a tag holds exactly the
  third and fourth tokens of the lines that carry the tag. \<open>write_nodes\<close> then writes, for
  each entry in order, the line \<open>*NSET,NSET=Nedge<tag>\<close> and the members of the set,
  ascending, in chunks of 16.
\<close>

theorem edge_boundaries_exact:
  assumes "read_mesh name fs = Inr (points, elements, materials, eb)"
  shows "\<exists>text els. fs name = Some text \<and>
    section_lines (mesh_lines text) ''edgesegmentsgi2'' = Inr els \<and>
    distinct (map fst eb) \<and>
    (\<forall>k. map_of eb k =
       (if 100 < k \<and> (\<exists>ln \<in> set els. and_then (getitem (split_ws ln) 0) py_int = Inr k)
        then Some {v. \<exists>ln \<in> set els. and_then (getitem (split_ws ln) 0) py_int = Inr k \<and>
                    (and_then (getitem (split_ws ln) 2) py_int = Inr v \<or>
                     and_then (getitem (split_ws ln) 3) py_int = Inr v)}
        else None)) \<and>
    for_each edge_set eb =
      (concat (map (\<lambda>(k, nodes). (''*NSET,NSET=Nedge'' @ str_int k @ nl) #
         map (\<lambda>sub. ''  '' @ join '', '' (map str_int sub) @ nl)
           (chunks_from (sorted_list_of_set nodes) 16 0)) eb), None)"
proof -
  from assms obtain src where src: "fs name = Some src"
    and p: "parse_mesh src = Inr (points, elements, materials, eb)"
    by (auto simp: read_mesh_Inr)
  from parse_mesh_Inr [OF p] obtain els where
    els: "section_lines (mesh_lines src) ''edgesegmentsgi2'' = Inr els"
    and loop: "edge_loop (map split_ws els) [] = Inr eb"
    by blast
  have inv: "distinct (map fst eb) \<and>
    (\<forall>k. map_of eb k =
       (if 100 < k \<and> (\<exists>e \<in> set (map split_ws els). and_then (getitem e 0) py_int = Inr k)
        then Some ((case map_of [] k of None \<Rightarrow> {} | Some s \<Rightarrow> s) \<union>
          {v. \<exists>e \<in> set (map split_ws els). and_then (getitem e 0) py_int = Inr k \<and>
                    (and_then (getitem e 2) py_int = Inr v \<or>
                     and_then (getitem e 3) py_int = Inr v)})
        else map_of [] k))"
    by (rule edge_loop_inv [where T = "\<lambda>e. and_then (getitem e 0) py_int"
          and N = "\<lambda>e v. and_then (getitem e 2) py_int = Inr v \<or>
                     and_then (getitem e 3) py_int = Inr v", OF _ _ _ loop]) simp_all
  then have "distinct (map fst eb)" and
    "\<And>k. map_of eb k =
       (if 100 < k \<and> (\<exists>ln \<in> set els. and_then (getitem (split_ws ln) 0) py_int = Inr k)
        then Some {v. \<exists>ln \<in> set els. and_then (getitem (split_ws ln) 0) py_int = Inr k \<and>
                    (and_then (getitem (split_ws ln) 2) py_int = Inr v \<or>
                     and_then (getitem (split_ws ln) 3) py_int = Inr v)}
        else None)"
    by simp_all
  with src els edge_set_loop [of eb] show ?thesis by blast
qed

text \<open>
  Five edge lines: two with tag 101, one with tag 102, and two with tags 5 and 100, which
  leave no entry.
\<close>

theorem edge_boundaries_exact_witness:
  "read_mesh ''in.mesh'' [''in.mesh'' \<mapsto> (''points'' @ nl @ ''0'' @ nl @ ''surfaceelements'' @ nl @ ''0'' @ nl @
        ''materials'' @ nl @ ''0'' @ nl @ ''edgesegmentsgi2'' @ nl @ ''5'' @ nl @
        ''101 0 1 2'' @ nl @ ''5 0 9 9'' @ nl @ ''101 0 2 3'' @ nl @ ''102 1 7 7'' @ nl @
        ''100 0 8 8'' @ nl)] =
     Inr ([], [], [], [(101, {1, 2, 3}), (102, {7})]) \<and>
   map_of [(101, {1, 2, 3 :: int}), (102 :: int, {7})] 100 = None \<and>
   for_each edge_set [(101, {1, 2, 3}), (102, {7})] =
     ([''*NSET,NSET=Nedge101'' @ nl, ''  1, 2, 3'' @ nl,
       ''*NSET,NSET=Nedge102'' @ nl, ''  7'' @ nl], None)"
proof -
  have r: "read_mesh ''in.mesh'' [''in.mesh'' \<mapsto> (''points'' @ nl @ ''0'' @ nl @ ''surfaceelements'' @ nl @ ''0'' @ nl @
        ''materials'' @ nl @ ''0'' @ nl @ ''edgesegmentsgi2'' @ nl @ ''5'' @ nl @
        ''101 0 1 2'' @ nl @ ''5 0 9 9'' @ nl @ ''101 0 2 3'' @ nl @ ''102 1 7 7'' @ nl @
        ''100 0 8 8'' @ nl)] =
     Inr ([], [], [], [(101, {1, 2, 3}), (102, {7})])"
    by code_simp
  from edge_boundaries_exact [OF r]
  have "for_each edge_set [(101, {1, 2, 3}), (102, {7})] =
      (concat (map (\<lambda>(k, nodes). (''*NSET,NSET=Nedge'' @ str_int k @ nl) #
         map (\<lambda>sub. ''  '' @ join '', '' (map str_int sub) @ nl)
           (chunks_from (sorted_list_of_set nodes) 16 0)) [(101, {1, 2, 3}), (102, {7})]), None)"
    (is "_ = ?rhs")
    by blast
  moreover have "?rhs = ([''*NSET,NSET=Nedge101'' @ nl, ''  1, 2, 3'' @ nl,
       ''*NSET,NSET=Nedge102'' @ nl, ''  7'' @ nl], None)"
    by code_simp
  moreover have "map_of [(101, {1, 2, 3 :: int}), (102 :: int, {7})] 100 = None"
    by simp
  ultimately show ?thesis using r by simp
qed

subsection \<open>Section keywords\<close>

lemma list_index_Inr:
  assumes "list_index xs x = Inr i"
  shows "i < length xs \<and> xs ! i = x \<and> x \<notin> set (take i xs)"
proof -
  from assms have mem: "x \<in> set xs" and i: "i = length (takeWhile (\<lambda>y. y \<noteq> x) xs)"
    by (auto simp: list_index_def split: if_splits)
  have "x \<in> set ys \<Longrightarrow> length (takeWhile (\<lambda>y. y \<noteq> x) ys) < length ys" for ys
    by (induction ys) auto
  with mem have lt: "i < length xs"
    unfolding i by simp
  then have "xs ! i = x"
    unfolding i using nth_length_takeWhile [of "\<lambda>y. y \<noteq> x" xs] by simp
  moreover have "take (length (takeWhile P ys)) ys = takeWhile P ys" for P and ys :: "'a list"
    by (induction ys) auto
  then have "take i xs = takeWhile (\<lambda>y. y \<noteq> x) xs"
    unfolding i by simp
  then have "x \<notin> set (take i xs)"
    by (auto dest: set_takeWhileD)
  ultimately show ?thesis using lt by simp
qed

lemma section_lines_Inr:
  assumes "section_lines lines kw = Inr ls"
  shows "\<exists>i num. i < length lines \<and> lines ! i = kw \<and> kw \<notin> set (take i lines) \<and>
    and_then (getitem lines (i + 1)) py_int = Inr num \<and>
    ls = py_slice lines (int i + 2) (int i + 2 + num)"
proof -
  from assms obtain i num where i: "list_index lines kw = Inr i"
    and num: "and_then (getitem lines (i + 1)) py_int = Inr num"
    and ls: "ls = py_slice lines (int (i + 2)) (int (i + 2) + num)"
    by (auto simp: section_lines_def Let_def and_then_Inr)
  have e: "int (i + 2) = int i + 2" by simp
  from list_index_Inr [OF i] num ls show ?thesis
    unfolding e by blast
qed

lemma section_lines_missing:
  "kw \<notin> set lines \<Longrightarrow> section_lines lines kw = Inl ValueError"
  by (simp add: section_lines_def list_index_def)

lemma parse_mesh_sections:
  assumes "parse_mesh src = Inr m"
    and "kw \<in> set [''points'', ''surfaceelements'', ''materials'', ''edgesegmentsgi2'']"
  shows "\<exists>ls. section_lines (mesh_lines src) kw = Inr ls"
proof -
  obtain points elements materials eb where "m = (points, elements, materials, eb)"
    by (cases m) auto
  with assms(1) parse_mesh_Inr [of src points elements materials eb] assms(2)
  show ?thesis by auto
qed

lemma list_index_first:
  assumes "i < length xs" "xs ! i = x" "x \<notin> set (take i xs)"
  shows "list_index xs x = Inr i"
proof -
  from assms(1,2) have mem: "x \<in> set xs" by auto
  have split: "xs = take i xs @ x # drop (Suc i) xs"
    using id_take_nth_drop [OF assms(1)] assms(2) by simp
  have "takeWhile (\<lambda>y. y \<noteq> x) (take i xs @ x # drop (Suc i) xs) = take i xs"
    using assms(3) by (subst takeWhile_append2) auto
  with split have "takeWhile (\<lambda>y. y \<noteq> x) xs = take i xs" by simp
  then have "length (takeWhile (\<lambda>y. y \<noteq> x) xs) = i"
    using assms(1) by simp
  with mem show ?thesis by (simp add: list_index_def)
qed

lemma section_lines_iff:
  "section_lines lines kw = Inr ls \<longleftrightarrow>
   (\<exists>i num. i < length lines \<and> lines ! i = kw \<and> kw \<notin> set (take i lines) \<and>
      and_then (getitem lines (i + 1)) py_int = Inr num \<and>
      ls = py_slice lines (int i + 2) (int i + 2 + num))"
proof
  assume "section_lines lines kw = Inr ls"
  then show "\<exists>i num. i < length lines \<and> lines ! i = kw \<and> kw \<notin> set (take i lines) \<and>
      and_then (getitem lines (i + 1)) py_int = Inr num \<and>
      ls = py_slice lines (int i + 2) (int i + 2 + num)"
    by (rule section_lines_Inr)
next
  assume "\<exists>i num. i < length lines \<and> lines ! i = kw \<and> kw \<notin> set (take i lines) \<and>
      and_then (getitem lines (i + 1)) py_int = Inr num \<and>
      ls = py_slice lines (int i + 2) (int i + 2 + num)"
  then obtain i num where i: "i < length lines" "lines ! i = kw" "kw \<notin> set (take i lines)"
    and num: "and_then (getitem lines (i + 1)) py_int = Inr num"
    and ls: "ls = py_slice lines (int i + 2) (int i + 2 + num)"
    by blast
  have e: "int (i + 2) = int i + 2" by simp
  have s: "section_lines lines kw = Inr (py_slice lines (int (i + 2)) (int (i + 2) + num))"
    using list_index_first [OF i] num by (simp add: section_lines_def Let_def)
  show "section_lines lines kw = Inr ls"
    by (simp only: s ls e)
qed

lemma parse_mesh_iff:
  "parse_mesh src = Inr (points, elements, materials, eb) \<longleftrightarrow>
   (\<exists>pls. section_lines (mesh_lines src) ''points'' = Inr pls \<and>
      map_raising (\<lambda>ln. map_raising py_float (split_ws ln)) pls = Inr points) \<and>
   (\<exists>sls. section_lines (mesh_lines src) ''surfaceelements'' = Inr sls \<and>
      map_raising (\<lambda>ln. map_raising py_int (split_ws ln)) sls = Inr elements) \<and>
   (\<exists>mls. section_lines (mesh_lines src) ''materials'' = Inr mls \<and>
      map_raising material_of (map split_ws mls) = Inr materials) \<and>
   (\<exists>els. section_lines (mesh_lines src) ''edgesegmentsgi2'' = Inr els \<and>
      edge_loop (map split_ws els) [] = Inr eb)"
  unfolding parse_mesh_def Let_def and_then_Inr by blast

text \<open>
  Claim C6, as amended. \<open>read_mesh\<close> returns a mesh exactly if each of the four keywords
  is a line of the file, the line after its first occurrence is a count, and the slice
  of that many lines after the count is read without error: the points, the element
  records, the materials and the boundary sets are what these four slices give. Where
  the first occurrences stand relative to each other, and whether a keyword occurs
  again, has no part in it. For every input in which one of the four keywords is no
  line at all, \<open>read_mesh\<close> raises.
\<close>

theorem sections_by_first_occurrence:
  assumes "fs name = Some src" and "L = mesh_lines src"
  shows "(read_mesh name fs = Inr (points, elements, materials, eb) \<longleftrightarrow>
      (\<exists>i n. i < length L \<and> L ! i = ''points'' \<and> ''points'' \<notin> set (take i L) \<and>
        and_then (getitem L (i + 1)) py_int = Inr n \<and>
        map_raising (\<lambda>ln. map_raising py_float (split_ws ln))
          (py_slice L (int i + 2) (int i + 2 + n)) = Inr points) \<and>
      (\<exists>i n. i < length L \<and> L ! i = ''surfaceelements'' \<and> ''surfaceelements'' \<notin> set (take i L) \<and>
        and_then (getitem L (i + 1)) py_int = Inr n \<and>
        map_raising (\<lambda>ln. map_raising py_int (split_ws ln))
          (py_slice L (int i + 2) (int i + 2 + n)) = Inr elements) \<and>
      (\<exists>i n. i < length L \<and> L ! i = ''materials'' \<and> ''materials'' \<notin> set (take i L) \<and>
        and_then (getitem L (i + 1)) py_int = Inr n \<and>
        map_raising material_of
          (map split_ws (py_slice L (int i + 2) (int i + 2 + n))) = Inr materials) \<and>
      (\<exists>i n. i < length L \<and> L ! i = ''edgesegmentsgi2'' \<and> ''edgesegmentsgi2'' \<notin> set (take i L) \<and>
        and_then (getitem L (i + 1)) py_int = Inr n \<and>
        edge_loop
          (map split_ws (py_slice L (int i + 2) (int i + 2 + n))) [] = Inr eb)) \<and>
    (\<forall>kw \<in> set [''points'', ''surfaceelements'', ''materials'', ''edgesegmentsgi2''].
       kw \<notin> set L \<longrightarrow> (\<exists>e. read_mesh name fs = Inl e))"
proof
  have sec: "(\<exists>ls. section_lines L kw = Inr ls \<and> P ls) \<longleftrightarrow>
      (\<exists>i n. i < length L \<and> L ! i = kw \<and> kw \<notin> set (take i L) \<and>
         and_then (getitem L (i + 1)) py_int = Inr n \<and>
         P (py_slice L (int i + 2) (int i + 2 + n)))" for kw and P :: "string list \<Rightarrow> bool"
    unfolding section_lines_iff by blast
  have "read_mesh name fs = Inr (points, elements, materials, eb) \<longleftrightarrow>
      parse_mesh src = Inr (points, elements, materials, eb)"
    using assms(1) by (simp add: read_mesh_Inr)
  also have "\<dots> \<longleftrightarrow>
   (\<exists>pls. section_lines L ''points'' = Inr pls \<and>
      map_raising (\<lambda>ln. map_raising py_float (split_ws ln)) pls = Inr points) \<and>
   (\<exists>sls. section_lines L ''surfaceelements'' = Inr sls \<and>
      map_raising (\<lambda>ln. map_raising py_int (split_ws ln)) sls = Inr elements) \<and>
   (\<exists>mls. section_lines L ''materials'' = Inr mls \<and>
      map_raising material_of (map split_ws mls) = Inr materials) \<and>
   (\<exists>els. section_lines L ''edgesegmentsgi2'' = Inr els \<and>
      edge_loop (map split_ws els) [] = Inr eb)"
    unfolding assms(2) by (rule parse_mesh_iff)
  also have "\<dots> \<longleftrightarrow>
      (\<exists>i n. i < length L \<and> L ! i = ''points'' \<and> ''points'' \<notin> set (take i L) \<and>
        and_then (getitem L (i + 1)) py_int = Inr n \<and>
        map_raising (\<lambda>ln. map_raising py_float (split_ws ln))
          (py_slice L (int i + 2) (int i + 2 + n)) = Inr points) \<and>
      (\<exists>i n. i < length L \<and> L ! i = ''surfaceelements'' \<and> ''surfaceelements'' \<notin> set (take i L) \<and>
        and_then (getitem L (i + 1)) py_int = Inr n \<and>
        map_raising (\<lambda>ln. map_raising py_int (split_ws ln))
          (py_slice L (int i + 2) (int i + 2 + n)) = Inr elements) \<and>
      (\<exists>i n. i < length L \<and> L ! i = ''materials'' \<and> ''materials'' \<notin> set (take i L) \<and>
        and_then (getitem L (i + 1)) py_int = Inr n \<and>
        map_raising material_of
          (map split_ws (py_slice L (int i + 2) (int i + 2 + n))) = Inr materials) \<and>
      (\<exists>i n. i < length L \<and> L ! i = ''edgesegmentsgi2'' \<and> ''edgesegmentsgi2'' \<notin> set (take i L) \<and>
        and_then (getitem L (i + 1)) py_int = Inr n \<and>
        edge_loop
          (map split_ws (py_slice L (int i + 2) (int i + 2 + n))) [] = Inr eb)"
    by (simp only: sec)
  finally show "read_mesh name fs = Inr (points, elements, materials, eb) \<longleftrightarrow>
      (\<exists>i n. i < length L \<and> L ! i = ''points'' \<and> ''points'' \<notin> set (take i L) \<and>
        and_then (getitem L (i + 1)) py_int = Inr n \<and>
        map_raising (\<lambda>ln. map_raising py_float (split_ws ln))
          (py_slice L (int i + 2) (int i + 2 + n)) = Inr points) \<and>
      (\<exists>i n. i < length L \<and> L ! i = ''surfaceelements'' \<and> ''surfaceelements'' \<notin> set (take i L) \<and>
        and_then (getitem L (i + 1)) py_int = Inr n \<and>
        map_raising (\<lambda>ln. map_raising py_int (split_ws ln))
          (py_slice L (int i + 2) (int i + 2 + n)) = Inr elements) \<and>
      (\<exists>i n. i < length L \<and> L ! i = ''materials'' \<and> ''materials'' \<notin> set (take i L) \<and>
        and_then (getitem L (i + 1)) py_int = Inr n \<and>
        map_raising material_of
          (map split_ws (py_slice L (int i + 2) (int i + 2 + n))) = Inr materials) \<and>
      (\<exists>i n. i < length L \<and> L ! i = ''edgesegmentsgi2'' \<and> ''edgesegmentsgi2'' \<notin> set (take i L) \<and>
        and_then (getitem L (i + 1)) py_int = Inr n \<and>
        edge_loop
          (map split_ws (py_slice L (int i + 2) (int i + 2 + n))) [] = Inr eb)" .
next
  show "\<forall>kw \<in> set [''points'', ''surfaceelements'', ''materials'', ''edgesegmentsgi2''].
       kw \<notin> set L \<longrightarrow> (\<exists>e. read_mesh name fs = Inl e)"
  proof (intro ballI impI)
    fix kw
    assume kw: "kw \<in> set [''points'', ''surfaceelements'', ''materials'', ''edgesegmentsgi2'']"
      and missing: "kw \<notin> set L"
    show "\<exists>e. read_mesh name fs = Inl e"
    proof (cases "read_mesh name fs")
      case (Inl e)
      then show ?thesis by blast
    next
      case (Inr m)
      with assms(1) have "parse_mesh src = Inr m" by (simp add: read_mesh_Inr)
      from parse_mesh_sections [OF this kw] section_lines_missing [OF missing]
      show ?thesis unfolding assms(2) by simp
    qed
  qed
qed

text \<open>
  A file without the keyword \<open>materials\<close>, and a file with the four sections in another
  order in which \<open>points\<close> stands twice.
\<close>

theorem sections_by_first_occurrence_witness:
  "''materials'' \<notin> set (mesh_lines (''points'' @ nl @ ''1'' @ nl @ ''0 0 0'' @ nl @
        ''surfaceelements'' @ nl @ ''0'' @ nl @ ''edgesegmentsgi2'' @ nl @ ''0'' @ nl)) \<and>
   (\<exists>e. read_mesh ''in.mesh'' [''in.mesh'' \<mapsto> (''points'' @ nl @ ''1'' @ nl @ ''0 0 0'' @ nl @
        ''surfaceelements'' @ nl @ ''0'' @ nl @ ''edgesegmentsgi2'' @ nl @ ''0'' @ nl)] = Inl e) \<and>
   mesh_lines (''materials'' @ nl @ ''1'' @ nl @ ''1 steel'' @ nl @
        ''edgesegmentsgi2'' @ nl @ ''1'' @ nl @ ''101 0 1 2'' @ nl @
        ''surfaceelements'' @ nl @ ''1'' @ nl @ ''1 1 0 0 3 1 2 3'' @ nl @
        ''points'' @ nl @ ''2'' @ nl @ ''0 0 0'' @ nl @ ''0 0 0'' @ nl @
        ''points'' @ nl @ ''0'' @ nl) ! 9 = ''points'' \<and> ''points'' \<notin> set (take 9 (mesh_lines (''materials'' @ nl @ ''1'' @ nl @ ''1 steel'' @ nl @
        ''edgesegmentsgi2'' @ nl @ ''1'' @ nl @ ''101 0 1 2'' @ nl @
        ''surfaceelements'' @ nl @ ''1'' @ nl @ ''1 1 0 0 3 1 2 3'' @ nl @
        ''points'' @ nl @ ''2'' @ nl @ ''0 0 0'' @ nl @ ''0 0 0'' @ nl @
        ''points'' @ nl @ ''0'' @ nl))) \<and>
   mesh_lines (''materials'' @ nl @ ''1'' @ nl @ ''1 steel'' @ nl @
        ''edgesegmentsgi2'' @ nl @ ''1'' @ nl @ ''101 0 1 2'' @ nl @
        ''surfaceelements'' @ nl @ ''1'' @ nl @ ''1 1 0 0 3 1 2 3'' @ nl @
        ''points'' @ nl @ ''2'' @ nl @ ''0 0 0'' @ nl @ ''0 0 0'' @ nl @
        ''points'' @ nl @ ''0'' @ nl) ! 6 = ''surfaceelements'' \<and> mesh_lines (''materials'' @ nl @ ''1'' @ nl @ ''1 steel'' @ nl @
        ''edgesegmentsgi2'' @ nl @ ''1'' @ nl @ ''101 0 1 2'' @ nl @
        ''surfaceelements'' @ nl @ ''1'' @ nl @ ''1 1 0 0 3 1 2 3'' @ nl @
        ''points'' @ nl @ ''2'' @ nl @ ''0 0 0'' @ nl @ ''0 0 0'' @ nl @
        ''points'' @ nl @ ''0'' @ nl) ! 0 = ''materials'' \<and>
   mesh_lines (''materials'' @ nl @ ''1'' @ nl @ ''1 steel'' @ nl @
        ''edgesegmentsgi2'' @ nl @ ''1'' @ nl @ ''101 0 1 2'' @ nl @
        ''surfaceelements'' @ nl @ ''1'' @ nl @ ''1 1 0 0 3 1 2 3'' @ nl @
        ''points'' @ nl @ ''2'' @ nl @ ''0 0 0'' @ nl @ ''0 0 0'' @ nl @
        ''points'' @ nl @ ''0'' @ nl) ! 3 = ''edgesegmentsgi2'' \<and> mesh_lines (''materials'' @ nl @ ''1'' @ nl @ ''1 steel'' @ nl @
        ''edgesegmentsgi2'' @ nl @ ''1'' @ nl @ ''101 0 1 2'' @ nl @
        ''surfaceelements'' @ nl @ ''1'' @ nl @ ''1 1 0 0 3 1 2 3'' @ nl @
        ''points'' @ nl @ ''2'' @ nl @ ''0 0 0'' @ nl @ ''0 0 0'' @ nl @
        ''points'' @ nl @ ''0'' @ nl) ! 13 = ''points'' \<and>
   read_mesh ''in.mesh'' [''in.mesh'' \<mapsto> (''materials'' @ nl @ ''1'' @ nl @ ''1 steel'' @ nl @
        ''edgesegmentsgi2'' @ nl @ ''1'' @ nl @ ''101 0 1 2'' @ nl @
        ''surfaceelements'' @ nl @ ''1'' @ nl @ ''1 1 0 0 3 1 2 3'' @ nl @
        ''points'' @ nl @ ''2'' @ nl @ ''0 0 0'' @ nl @ ''0 0 0'' @ nl @
        ''points'' @ nl @ ''0'' @ nl)] =
     Inr ([[Finite False 0 0, Finite False 0 0, Finite False 0 0],
           [Finite False 0 0, Finite False 0 0, Finite False 0 0]],
          [[1, 1, 0, 0, 3, 1, 2, 3]], [(1, ''steel'')], [(101, {1, 2})])"
proof -
  have m: "''materials'' \<notin> set (mesh_lines (''points'' @ nl @ ''1'' @ nl @ ''0 0 0'' @ nl @
        ''surfaceelements'' @ nl @ ''0'' @ nl @ ''edgesegmentsgi2'' @ nl @ ''0'' @ nl))"
    by code_simp
  have k: "''materials'' \<in> set [''points'', ''surfaceelements'', ''materials'', ''edgesegmentsgi2'']"
    by simp
  from conjunct2 [OF sections_by_first_occurrence [where fs = "[''in.mesh'' \<mapsto> (''points'' @ nl @ ''1'' @ nl @ ''0 0 0'' @ nl @
        ''surfaceelements'' @ nl @ ''0'' @ nl @ ''edgesegmentsgi2'' @ nl @ ''0'' @ nl)]"
        and name = "''in.mesh''" and src = "(''points'' @ nl @ ''1'' @ nl @ ''0 0 0'' @ nl @
        ''surfaceelements'' @ nl @ ''0'' @ nl @ ''edgesegmentsgi2'' @ nl @ ''0'' @ nl)" and L = "mesh_lines (''points'' @ nl @ ''1'' @ nl @ ''0 0 0'' @ nl @
        ''surfaceelements'' @ nl @ ''0'' @ nl @ ''edgesegmentsgi2'' @ nl @ ''0'' @ nl)"]] k m
  have a: "\<exists>e. read_mesh ''in.mesh'' [''in.mesh'' \<mapsto> (''points'' @ nl @ ''1'' @ nl @ ''0 0 0'' @ nl @
        ''surfaceelements'' @ nl @ ''0'' @ nl @ ''edgesegmentsgi2'' @ nl @ ''0'' @ nl)] = Inl e"
    by simp
  have l: "mesh_lines (''materials'' @ nl @ ''1'' @ nl @ ''1 steel'' @ nl @
        ''edgesegmentsgi2'' @ nl @ ''1'' @ nl @ ''101 0 1 2'' @ nl @
        ''surfaceelements'' @ nl @ ''1'' @ nl @ ''1 1 0 0 3 1 2 3'' @ nl @
        ''points'' @ nl @ ''2'' @ nl @ ''0 0 0'' @ nl @ ''0 0 0'' @ nl @
        ''points'' @ nl @ ''0'' @ nl) =
      [''materials'', ''1'', ''1 steel'', ''edgesegmentsgi2'', ''1'', ''101 0 1 2'',
       ''surfaceelements'', ''1'', ''1 1 0 0 3 1 2 3'', ''points'', ''2'', ''0 0 0'', ''0 0 0'',
       ''points'', ''0'']"
    by code_simp
  have p: "\<exists>i n. i < length (mesh_lines (''materials'' @ nl @ ''1'' @ nl @ ''1 steel'' @ nl @
        ''edgesegmentsgi2'' @ nl @ ''1'' @ nl @ ''101 0 1 2'' @ nl @
        ''surfaceelements'' @ nl @ ''1'' @ nl @ ''1 1 0 0 3 1 2 3'' @ nl @
        ''points'' @ nl @ ''2'' @ nl @ ''0 0 0'' @ nl @ ''0 0 0'' @ nl @
        ''points'' @ nl @ ''0'' @ nl)) \<and> mesh_lines (''materials'' @ nl @ ''1'' @ nl @ ''1 steel'' @ nl @
        ''edgesegmentsgi2'' @ nl @ ''1'' @ nl @ ''101 0 1 2'' @ nl @
        ''surfaceelements'' @ nl @ ''1'' @ nl @ ''1 1 0 0 3 1 2 3'' @ nl @
        ''points'' @ nl @ ''2'' @ nl @ ''0 0 0'' @ nl @ ''0 0 0'' @ nl @
        ''points'' @ nl @ ''0'' @ nl) ! i = ''points'' \<and>
        ''points'' \<notin> set (take i (mesh_lines (''materials'' @ nl @ ''1'' @ nl @ ''1 steel'' @ nl @
        ''edgesegmentsgi2'' @ nl @ ''1'' @ nl @ ''101 0 1 2'' @ nl @
        ''surfaceelements'' @ nl @ ''1'' @ nl @ ''1 1 0 0 3 1 2 3'' @ nl @
        ''points'' @ nl @ ''2'' @ nl @ ''0 0 0'' @ nl @ ''0 0 0'' @ nl @
        ''points'' @ nl @ ''0'' @ nl))) \<and>
        and_then (getitem (mesh_lines (''materials'' @ nl @ ''1'' @ nl @ ''1 steel'' @ nl @
        ''edgesegmentsgi2'' @ nl @ ''1'' @ nl @ ''101 0 1 2'' @ nl @
        ''surfaceelements'' @ nl @ ''1'' @ nl @ ''1 1 0 0 3 1 2 3'' @ nl @
        ''points'' @ nl @ ''2'' @ nl @ ''0 0 0'' @ nl @ ''0 0 0'' @ nl @
        ''points'' @ nl @ ''0'' @ nl)) (i + 1)) py_int = Inr n \<and>
        map_raising (\<lambda>ln. map_raising py_float (split_ws ln))
          (py_slice (mesh_lines (''materials'' @ nl @ ''1'' @ nl @ ''1 steel'' @ nl @
        ''edgesegmentsgi2'' @ nl @ ''1'' @ nl @ ''101 0 1 2'' @ nl @
        ''surfaceelements'' @ nl @ ''1'' @ nl @ ''1 1 0 0 3 1 2 3'' @ nl @
        ''points'' @ nl @ ''2'' @ nl @ ''0 0 0'' @ nl @ ''0 0 0'' @ nl @
        ''points'' @ nl @ ''0'' @ nl)) (int i + 2) (int i + 2 + n)) =
        Inr [[Finite False 0 0, Finite False 0 0, Finite False 0 0],
             [Finite False 0 0, Finite False 0 0, Finite False 0 0]]"
    unfolding l by (intro exI [of _ 9] exI [of _ 2]) code_simp
  have s: "\<exists>i n. i < length (mesh_lines (''materials'' @ nl @ ''1'' @ nl @ ''1 steel'' @ nl @
        ''edgesegmentsgi2'' @ nl @ ''1'' @ nl @ ''101 0 1 2'' @ nl @
        ''surfaceelements'' @ nl @ ''1'' @ nl @ ''1 1 0 0 3 1 2 3'' @ nl @
        ''points'' @ nl @ ''2'' @ nl @ ''0 0 0'' @ nl @ ''0 0 0'' @ nl @
        ''points'' @ nl @ ''0'' @ nl)) \<and> mesh_lines (''materials'' @ nl @ ''1'' @ nl @ ''1 steel'' @ nl @
        ''edgesegmentsgi2'' @ nl @ ''1'' @ nl @ ''101 0 1 2'' @ nl @
        ''surfaceelements'' @ nl @ ''1'' @ nl @ ''1 1 0 0 3 1 2 3'' @ nl @
        ''points'' @ nl @ ''2'' @ nl @ ''0 0 0'' @ nl @ ''0 0 0'' @ nl @
        ''points'' @ nl @ ''0'' @ nl) ! i = ''surfaceelements'' \<and>
        ''surfaceelements'' \<notin> set (take i (mesh_lines (''materials'' @ nl @ ''1'' @ nl @ ''1 steel'' @ nl @
        ''edgesegmentsgi2'' @ nl @ ''1'' @ nl @ ''101 0 1 2'' @ nl @
        ''surfaceelements'' @ nl @ ''1'' @ nl @ ''1 1 0 0 3 1 2 3'' @ nl @
        ''points'' @ nl @ ''2'' @ nl @ ''0 0 0'' @ nl @ ''0 0 0'' @ nl @
        ''points'' @ nl @ ''0'' @ nl))) \<and>
        and_then (getitem (mesh_lines (''materials'' @ nl @ ''1'' @ nl @ ''1 steel'' @ nl @
        ''edgesegmentsgi2'' @ nl @ ''1'' @ nl @ ''101 0 1 2'' @ nl @
        ''surfaceelements'' @ nl @ ''1'' @ nl @ ''1 1 0 0 3 1 2 3'' @ nl @
        ''points'' @ nl @ ''2'' @ nl @ ''0 0 0'' @ nl @ ''0 0 0'' @ nl @
        ''points'' @ nl @ ''0'' @ nl)) (i + 1)) py_int = Inr n \<and>
        map_raising (\<lambda>ln. map_raising py_int (split_ws ln))
          (py_slice (mesh_lines (''materials'' @ nl @ ''1'' @ nl @ ''1 steel'' @ nl @
        ''edgesegmentsgi2'' @ nl @ ''1'' @ nl @ ''101 0 1 2'' @ nl @
        ''surfaceelements'' @ nl @ ''1'' @ nl @ ''1 1 0 0 3 1 2 3'' @ nl @
        ''points'' @ nl @ ''2'' @ nl @ ''0 0 0'' @ nl @ ''0 0 0'' @ nl @
        ''points'' @ nl @ ''0'' @ nl)) (int i + 2) (int i + 2 + n)) =
        Inr [[1, 1, 0, 0, 3, 1, 2, 3]]"
    unfolding l by (intro exI [of _ 6] exI [of _ 1]) code_simp
  have t: "\<exists>i n. i < length (mesh_lines (''materials'' @ nl @ ''1'' @ nl @ ''1 steel'' @ nl @
        ''edgesegmentsgi2'' @ nl @ ''1'' @ nl @ ''101 0 1 2'' @ nl @
        ''surfaceelements'' @ nl @ ''1'' @ nl @ ''1 1 0 0 3 1 2 3'' @ nl @
        ''points'' @ nl @ ''2'' @ nl @ ''0 0 0'' @ nl @ ''0 0 0'' @ nl @
        ''points'' @ nl @ ''0'' @ nl)) \<and> mesh_lines (''materials'' @ nl @ ''1'' @ nl @ ''1 steel'' @ nl @
        ''edgesegmentsgi2'' @ nl @ ''1'' @ nl @ ''101 0 1 2'' @ nl @
        ''surfaceelements'' @ nl @ ''1'' @ nl @ ''1 1 0 0 3 1 2 3'' @ nl @
        ''points'' @ nl @ ''2'' @ nl @ ''0 0 0'' @ nl @ ''0 0 0'' @ nl @
        ''points'' @ nl @ ''0'' @ nl) ! i = ''materials'' \<and>
        ''materials'' \<notin> set (take i (mesh_lines (''materials'' @ nl @ ''1'' @ nl @ ''1 steel'' @ nl @
        ''edgesegmentsgi2'' @ nl @ ''1'' @ nl @ ''101 0 1 2'' @ nl @
        ''surfaceelements'' @ nl @ ''1'' @ nl @ ''1 1 0 0 3 1 2 3'' @ nl @
        ''points'' @ nl @ ''2'' @ nl @ ''0 0 0'' @ nl @ ''0 0 0'' @ nl @
        ''points'' @ nl @ ''0'' @ nl))) \<and>
        and_then (getitem (mesh_lines (''materials'' @ nl @ ''1'' @ nl @ ''1 steel'' @ nl @
        ''edgesegmentsgi2'' @ nl @ ''1'' @ nl @ ''101 0 1 2'' @ nl @
        ''surfaceelements'' @ nl @ ''1'' @ nl @ ''1 1 0 0 3 1 2 3'' @ nl @
        ''points'' @ nl @ ''2'' @ nl @ ''0 0 0'' @ nl @ ''0 0 0'' @ nl @
        ''points'' @ nl @ ''0'' @ nl)) (i + 1)) py_int = Inr n \<and>
        map_raising material_of
          (map split_ws (py_slice (mesh_lines (''materials'' @ nl @ ''1'' @ nl @ ''1 steel'' @ nl @
        ''edgesegmentsgi2'' @ nl @ ''1'' @ nl @ ''101 0 1 2'' @ nl @
        ''surfaceelements'' @ nl @ ''1'' @ nl @ ''1 1 0 0 3 1 2 3'' @ nl @
        ''points'' @ nl @ ''2'' @ nl @ ''0 0 0'' @ nl @ ''0 0 0'' @ nl @
        ''points'' @ nl @ ''0'' @ nl)) (int i + 2) (int i + 2 + n))) =
        Inr [(1, ''steel'')]"
    unfolding l by (intro exI [of _ 0] exI [of _ 1]) code_simp
  have e: "\<exists>i n. i < length (mesh_lines (''materials'' @ nl @ ''1'' @ nl @ ''1 steel'' @ nl @
        ''edgesegmentsgi2'' @ nl @ ''1'' @ nl @ ''101 0 1 2'' @ nl @
        ''surfaceelements'' @ nl @ ''1'' @ nl @ ''1 1 0 0 3 1 2 3'' @ nl @
        ''points'' @ nl @ ''2'' @ nl @ ''0 0 0'' @ nl @ ''0 0 0'' @ nl @
        ''points'' @ nl @ ''0'' @ nl)) \<and> mesh_lines (''materials'' @ nl @ ''1'' @ nl @ ''1 steel'' @ nl @
        ''edgesegmentsgi2'' @ nl @ ''1'' @ nl @ ''101 0 1 2'' @ nl @
        ''surfaceelements'' @ nl @ ''1'' @ nl @ ''1 1 0 0 3 1 2 3'' @ nl @
        ''points'' @ nl @ ''2'' @ nl @ ''0 0 0'' @ nl @ ''0 0 0'' @ nl @
        ''points'' @ nl @ ''0'' @ nl) ! i = ''edgesegmentsgi2'' \<and>
        ''edgesegmentsgi2'' \<notin> set (take i (mesh_lines (''materials'' @ nl @ ''1'' @ nl @ ''1 steel'' @ nl @
        ''edgesegmentsgi2'' @ nl @ ''1'' @ nl @ ''101 0 1 2'' @ nl @
        ''surfaceelements'' @ nl @ ''1'' @ nl @ ''1 1 0 0 3 1 2 3'' @ nl @
        ''points'' @ nl @ ''2'' @ nl @ ''0 0 0'' @ nl @ ''0 0 0'' @ nl @
        ''points'' @ nl @ ''0'' @ nl))) \<and>
        and_then (getitem (mesh_lines (''materials'' @ nl @ ''1'' @ nl @ ''1 steel'' @ nl @
        ''edgesegmentsgi2'' @ nl @ ''1'' @ nl @ ''101 0 1 2'' @ nl @
        ''surfaceelements'' @ nl @ ''1'' @ nl @ ''1 1 0 0 3 1 2 3'' @ nl @
        ''points'' @ nl @ ''2'' @ nl @ ''0 0 0'' @ nl @ ''0 0 0'' @ nl @
        ''points'' @ nl @ ''0'' @ nl)) (i + 1)) py_int = Inr n \<and>
        edge_loop
          (map split_ws (py_slice (mesh_lines (''materials'' @ nl @ ''1'' @ nl @ ''1 steel'' @ nl @
        ''edgesegmentsgi2'' @ nl @ ''1'' @ nl @ ''101 0 1 2'' @ nl @
        ''surfaceelements'' @ nl @ ''1'' @ nl @ ''1 1 0 0 3 1 2 3'' @ nl @
        ''points'' @ nl @ ''2'' @ nl @ ''0 0 0'' @ nl @ ''0 0 0'' @ nl @
        ''points'' @ nl @ ''0'' @ nl)) (int i + 2) (int i + 2 + n))) [] =
        Inr [(101, {1, 2})]"
    unfolding l by (intro exI [of _ 3] exI [of _ 1]) code_simp
  from p s t e
  have r: "read_mesh ''in.mesh'' [''in.mesh'' \<mapsto> (''materials'' @ nl @ ''1'' @ nl @ ''1 steel'' @ nl @
        ''edgesegmentsgi2'' @ nl @ ''1'' @ nl @ ''101 0 1 2'' @ nl @
        ''surfaceelements'' @ nl @ ''1'' @ nl @ ''1 1 0 0 3 1 2 3'' @ nl @
        ''points'' @ nl @ ''2'' @ nl @ ''0 0 0'' @ nl @ ''0 0 0'' @ nl @
        ''points'' @ nl @ ''0'' @ nl)] =
     Inr ([[Finite False 0 0, Finite False 0 0, Finite False 0 0],
           [Finite False 0 0, Finite False 0 0, Finite False 0 0]],
          [[1, 1, 0, 0, 3, 1, 2, 3]], [(1, ''steel'')], [(101, {1, 2})])"
    by (subst conjunct1 [OF sections_by_first_occurrence [where fs = "[''in.mesh'' \<mapsto> (''materials'' @ nl @ ''1'' @ nl @ ''1 steel'' @ nl @
        ''edgesegmentsgi2'' @ nl @ ''1'' @ nl @ ''101 0 1 2'' @ nl @
        ''surfaceelements'' @ nl @ ''1'' @ nl @ ''1 1 0 0 3 1 2 3'' @ nl @
        ''points'' @ nl @ ''2'' @ nl @ ''0 0 0'' @ nl @ ''0 0 0'' @ nl @
        ''points'' @ nl @ ''0'' @ nl)]"
        and name = "''in.mesh''" and src = "(''materials'' @ nl @ ''1'' @ nl @ ''1 steel'' @ nl @
        ''edgesegmentsgi2'' @ nl @ ''1'' @ nl @ ''101 0 1 2'' @ nl @
        ''surfaceelements'' @ nl @ ''1'' @ nl @ ''1 1 0 0 3 1 2 3'' @ nl @
        ''points'' @ nl @ ''2'' @ nl @ ''0 0 0'' @ nl @ ''0 0 0'' @ nl @
        ''points'' @ nl @ ''0'' @ nl)" and L = "mesh_lines (''materials'' @ nl @ ''1'' @ nl @ ''1 steel'' @ nl @
        ''edgesegmentsgi2'' @ nl @ ''1'' @ nl @ ''101 0 1 2'' @ nl @
        ''surfaceelements'' @ nl @ ''1'' @ nl @ ''1 1 0 0 3 1 2 3'' @ nl @
        ''points'' @ nl @ ''2'' @ nl @ ''0 0 0'' @ nl @ ''0 0 0'' @ nl @
        ''points'' @ nl @ ''0'' @ nl)"]])
       simp_all
  have i: "mesh_lines (''materials'' @ nl @ ''1'' @ nl @ ''1 steel'' @ nl @
        ''edgesegmentsgi2'' @ nl @ ''1'' @ nl @ ''101 0 1 2'' @ nl @
        ''surfaceelements'' @ nl @ ''1'' @ nl @ ''1 1 0 0 3 1 2 3'' @ nl @
        ''points'' @ nl @ ''2'' @ nl @ ''0 0 0'' @ nl @ ''0 0 0'' @ nl @
        ''points'' @ nl @ ''0'' @ nl) ! 9 = ''points''" "''points'' \<notin> set (take 9 (mesh_lines (''materials'' @ nl @ ''1'' @ nl @ ''1 steel'' @ nl @
        ''edgesegmentsgi2'' @ nl @ ''1'' @ nl @ ''101 0 1 2'' @ nl @
        ''surfaceelements'' @ nl @ ''1'' @ nl @ ''1 1 0 0 3 1 2 3'' @ nl @
        ''points'' @ nl @ ''2'' @ nl @ ''0 0 0'' @ nl @ ''0 0 0'' @ nl @
        ''points'' @ nl @ ''0'' @ nl)))"
    "mesh_lines (''materials'' @ nl @ ''1'' @ nl @ ''1 steel'' @ nl @
        ''edgesegmentsgi2'' @ nl @ ''1'' @ nl @ ''101 0 1 2'' @ nl @
        ''surfaceelements'' @ nl @ ''1'' @ nl @ ''1 1 0 0 3 1 2 3'' @ nl @
        ''points'' @ nl @ ''2'' @ nl @ ''0 0 0'' @ nl @ ''0 0 0'' @ nl @
        ''points'' @ nl @ ''0'' @ nl) ! 6 = ''surfaceelements''" "mesh_lines (''materials'' @ nl @ ''1'' @ nl @ ''1 steel'' @ nl @
        ''edgesegmentsgi2'' @ nl @ ''1'' @ nl @ ''101 0 1 2'' @ nl @
        ''surfaceelements'' @ nl @ ''1'' @ nl @ ''1 1 0 0 3 1 2 3'' @ nl @
        ''points'' @ nl @ ''2'' @ nl @ ''0 0 0'' @ nl @ ''0 0 0'' @ nl @
        ''points'' @ nl @ ''0'' @ nl) ! 0 = ''materials''"
    "mesh_lines (''materials'' @ nl @ ''1'' @ nl @ ''1 steel'' @ nl @
        ''edgesegmentsgi2'' @ nl @ ''1'' @ nl @ ''101 0 1 2'' @ nl @
        ''surfaceelements'' @ nl @ ''1'' @ nl @ ''1 1 0 0 3 1 2 3'' @ nl @
        ''points'' @ nl @ ''2'' @ nl @ ''0 0 0'' @ nl @ ''0 0 0'' @ nl @
        ''points'' @ nl @ ''0'' @ nl) ! 3 = ''edgesegmentsgi2''" "mesh_lines (''materials'' @ nl @ ''1'' @ nl @ ''1 steel'' @ nl @
        ''edgesegmentsgi2'' @ nl @ ''1'' @ nl @ ''101 0 1 2'' @ nl @
        ''surfaceelements'' @ nl @ ''1'' @ nl @ ''1 1 0 0 3 1 2 3'' @ nl @
        ''points'' @ nl @ ''2'' @ nl @ ''0 0 0'' @ nl @ ''0 0 0'' @ nl @
        ''points'' @ nl @ ''0'' @ nl) ! 13 = ''points''"
    unfolding l by simp_all
  from m a i r show ?thesis by blast
qed

text \<open>
  Claim C6 as stated fails. In this file the sections stand in the order \<open>materials\<close>,
  \<open>edgesegmentsgi2\<close>, \<open>surfaceelements\<close>, \<open>points\<close>, and the keyword \<open>points\<close> occurs a
  second time; \<open>read_mesh\<close> returns the mesh of the first occurrences.
\<close>

theorem sections_counterexample:
  "read_mesh ''in.mesh'' [''in.mesh'' \<mapsto> (''materials'' @ nl @ ''1'' @ nl @ ''1 steel'' @ nl @
        ''edgesegmentsgi2'' @ nl @ ''1'' @ nl @ ''101 0 1 2'' @ nl @
        ''surfaceelements'' @ nl @ ''1'' @ nl @ ''1 1 0 0 3 1 2 3'' @ nl @
        ''points'' @ nl @ ''2'' @ nl @ ''0 0 0'' @ nl @ ''0 0 0'' @ nl @
        ''points'' @ nl @ ''0'' @ nl)] =
     Inr ([[Finite False 0 0, Finite False 0 0, Finite False 0 0],
           [Finite False 0 0, Finite False 0 0, Finite False 0 0]],
          [[1, 1, 0, 0, 3, 1, 2, 3]], [(1, ''steel'')], [(101, {1, 2})])"
  by code_simp

subsection \<open>Lines with a wrong number of tokens\<close>

lemma map_raising_Inr:
  assumes "map_raising f xs = Inr ys"
  shows "length ys = length xs \<and> (\<forall>i < length xs. f (xs ! i) = Inr (ys ! i))"
  using assms
proof (induction xs arbitrary: ys)
  case Nil
  then show ?case by simp
next
  case (Cons x xs)
  from Cons.prems obtain y ys' where y: "f x = Inr y" and r: "map_raising f xs = Inr ys'"
    and ys: "ys = y # ys'"
    by (auto simp: and_then_Inr)
  from Cons.IH [OF r] y ys show ?case
    by (auto simp: nth_Cons split: nat.splits)
qed

lemma map_raising_fails:
  assumes "x \<in> set xs" and "f x = Inl e"
  shows "\<exists>e'. map_raising f xs = Inl e'"
proof (cases "map_raising f xs")
  case (Inl e')
  then show ?thesis by blast
next
  case (Inr ys)
  from assms(1) obtain i where "i < length xs" "xs ! i = x"
    by (auto simp: in_set_conv_nth)
  with map_raising_Inr [OF Inr] assms(2) show ?thesis by auto
qed

lemma then_out_snd:
  "snd (then_out a k) = (case snd a of None \<Rightarrow> snd k | Some e \<Rightarrow> Some e)"
  by (cases a; cases "snd a") auto

lemma for_each_fails:
  assumes "x \<in> set xs" and "snd (body x) \<noteq> None"
  shows "snd (for_each body xs) \<noteq> None"
  using assms
proof (induction xs)
  case Nil
  then show ?case by simp
next
  case (Cons y ys)
  then show ?case
    by (cases "snd (body y)") (auto simp: then_out_snd)
qed

lemma edge_loop_lines:
  assumes "edge_loop es d = Inr d'" and "e \<in> set es"
  shows "\<exists>k. and_then (getitem e 0) py_int = Inr k \<and> (100 < k \<longrightarrow> 4 \<le> length e)"
  using assms
proof (induction es arbitrary: d)
  case Nil
  then show ?case by simp
next
  case (Cons x es)
  from Cons.prems(1) obtain key where key: "and_then (getitem x 0) py_int = Inr key"
    by (auto simp: and_then_Inr)
  show ?case
  proof (cases "100 < key")
    case True
    with Cons.prems(1) key obtain a b where
      b: "and_then (getitem x 3) py_int = Inr b" and
      rest: "edge_loop es (set_add key b (set_add key a d)) = Inr d'"
      by (auto simp: and_then_Inr)
    from b have "4 \<le> length x"
      by (auto simp: and_then_Inr getitem_def split: if_splits)
    with key Cons.IH [OF rest] Cons.prems(2) show ?thesis by auto
  next
    case False
    with Cons.prems(1) key have rest: "edge_loop es d = Inr d'"
      by (auto simp: and_then_Inr)
    with key False Cons.IH [OF rest] Cons.prems(2) show ?thesis by auto
  qed
qed

lemma material_of_Inr: "material_of m = Inr y \<Longrightarrow> 2 \<le> length m"
  by (auto simp: material_of_def and_then_Inr getitem_def split: if_splits)

lemma node_record_fails:
  assumes "p \<in> set points" and "length p \<noteq> 3"
  shows "snd (for_each node_record (enumerate1 points)) \<noteq> None"
proof -
  from assms(1) obtain i where i: "i < length points" "points ! i = p"
    by (auto simp: in_set_conv_nth)
  then have "(int i + 1, p) \<in> set (enumerate1 points)"
    by (auto simp: enumerate1_nth)
  moreover have "snd (node_record (int i + 1, p)) \<noteq> None"
    using assms(2) by (simp add: node_record_bad)
  ultimately show ?thesis by (rule for_each_fails)
qed

lemma connectivity_fails:
  assumes "e \<in> set elements" and "length e < 5 \<or> (e ! 4 = 6 \<and> length e < 11)"
  shows "snd (for_each connectivity (enumerate1 elements)) \<noteq> None"
proof -
  from assms(1) obtain i where i: "i < length elements" "elements ! i = e"
    by (auto simp: in_set_conv_nth)
  then have mem: "(int i + 1, e) \<in> set (enumerate1 elements)"
    by (auto simp: enumerate1_nth)
  have "snd (connectivity (int i + 1, e)) \<noteq> None"
  proof (cases "length e < 5")
    case True
    then show ?thesis by (simp add: connectivity_def guarded_def getitem_def)
  next
    case False
    with assms(2) have six: "e ! 4 = 6" and short: "length e < 11" by simp_all
    from False have g: "getitem e 4 = Inr 6" using six by (simp add: getitem_def)
    have s: "py_slice e 5 (5 + 6) = take 6 (drop 5 e)"
      using py_slice_take_drop [of 5 6 e] by simp
    from short have "getitem (take 6 (drop 5 e)) 5 = Inl IndexError"
      by (simp add: getitem_def)
    then obtain e' where "map_raising (getitem (take 6 (drop 5 e))) [0, 1, 2, 5, 3, 4] = Inl e'"
      using map_raising_fails [of 5 "[0, 1, 2, 5, 3, 4]" "getitem (take 6 (drop 5 e))" IndexError]
      by auto
    then show ?thesis
      by (simp only: connectivity_def prod.case guarded_def g sum.case Let_def s) simp
  qed
  with mem show ?thesis by (rule for_each_fails)
qed

lemma main_fails:
  assumes "3 \<le> length argv"
    and "read_mesh (argv ! 0) fs = Inr (points, elements, materials, eb)"
    and "(\<exists>p \<in> set points. length p \<noteq> 3) \<or>
         (\<exists>e \<in> set elements. length e < 5 \<or> (e ! 4 = 6 \<and> length e < 11))"
  shows "\<exists>e fs'. main argv fs = (Inl e, fs')"
proof -
  define name' where "name' = (if \<not> endswith (argv ! 1) ''.inp'' then argv ! 1 @ ''.inp'' else argv ! 1)"
  obtain ws err where n: "nodes_out name' points elements materials eb = (ws, err)"
    by (cases "nodes_out name' points elements materials eb")
  obtain ws2 err2 where e: "elements_out (argv ! 2) elements materials = (ws2, err2)"
    by (cases "elements_out (argv ! 2) elements materials")
  have wn: "write_nodes (argv ! 1) points elements materials eb fs =
      (outcome err, fs(name' \<mapsto> concat ws))"
    by (simp only: write_nodes_def Let_def name'_def [symmetric] n prod.case)
  have we: "write_elements (argv ! 2) elements materials fs2 =
      (outcome err2, fs2(argv ! 2 \<mapsto> concat ws2))" for fs2
    by (simp only: write_elements_def Let_def e prod.case)
  show ?thesis
  proof (cases err)
    case (Some x)
    then show ?thesis
      using assms(1,2) wn by (simp add: main_def outcome_def)
  next
    case None
    have "\<not> (\<exists>p \<in> set points. length p \<noteq> 3)"
    proof
      assume "\<exists>p \<in> set points. length p \<noteq> 3"
      then have "snd (for_each node_record (enumerate1 points)) \<noteq> None"
        using node_record_fails by blast
      then have "snd (nodes_out name' points elements materials eb) \<noteq> None"
        by (auto simp: nodes_out_def then_out_snd emit_def split: option.splits)
      with n None show False by simp
    qed
    with assms(3) have "snd (for_each connectivity (enumerate1 elements)) \<noteq> None"
      using connectivity_fails by blast
    then have "snd (elements_out (argv ! 2) elements materials) \<noteq> None"
      by (auto simp: elements_out_def then_out_snd emit_def split: option.splits)
    with e obtain x where "err2 = Some x" by auto
    then show ?thesis
      using assms(1,2) wn we None by (simp add: main_def outcome_def)
  qed
qed

text \<open>
  Claim C7, as amended. With three file names and a mesh file that can be opened, the
  run ends with an unhandled exception for every input in which
  a line of the \<open>points\<close> section has not exactly three tokens;
  a line of the \<open>surfaceelements\<close> section has fewer than five tokens, or has node count
  6 and fewer than eleven tokens;
  a line of the \<open>materials\<close> section has fewer than two tokens; or
  a line of the \<open>edgesegmentsgi2\<close> section has no token, or has a tag above 100 and
  fewer than four tokens.
  What was written to a file before the exception stays in it. Other lines with a
  wrong number of tokens are not said to fail.
\<close>

theorem wrong_token_counts:
  assumes "3 \<le> length argv" and "fs (argv ! 0) = Some src"
  shows
    "(\<forall>pls. section_lines (mesh_lines src) ''points'' = Inr pls \<longrightarrow>
        (\<exists>ln \<in> set pls. length (split_ws ln) \<noteq> 3) \<longrightarrow>
        (\<exists>e fs'. main argv fs = (Inl e, fs'))) \<and>
     (\<forall>sls. section_lines (mesh_lines src) ''surfaceelements'' = Inr sls \<longrightarrow>
        (\<exists>ln \<in> set sls. length (split_ws ln) < 5 \<or>
           (and_then (getitem (split_ws ln) 4) py_int = Inr 6 \<and> length (split_ws ln) < 11)) \<longrightarrow>
        (\<exists>e fs'. main argv fs = (Inl e, fs'))) \<and>
     (\<forall>mls. section_lines (mesh_lines src) ''materials'' = Inr mls \<longrightarrow>
        (\<exists>ln \<in> set mls. length (split_ws ln) < 2) \<longrightarrow>
        (\<exists>e fs'. main argv fs = (Inl e, fs'))) \<and>
     (\<forall>els. section_lines (mesh_lines src) ''edgesegmentsgi2'' = Inr els \<longrightarrow>
        (\<exists>ln \<in> set els. split_ws ln = [] \<or>
           (\<exists>k. and_then (getitem (split_ws ln) 0) py_int = Inr k \<and> 100 < k \<and>
                length (split_ws ln) < 4)) \<longrightarrow>
        (\<exists>e fs'. main argv fs = (Inl e, fs')))"
proof (cases "read_mesh (argv ! 0) fs")
  case (Inl e)
  with assms(1) have "main argv fs = (Inl e, fs)"
    by (simp add: main_def)
  then show ?thesis by blast
next
  case (Inr m)
  obtain points elements materials eb where m: "m = (points, elements, materials, eb)"
    by (cases m) auto
  from Inr m assms(2) have p: "parse_mesh src = Inr (points, elements, materials, eb)"
    by (simp add: read_mesh_Inr)
  from parse_mesh_Inr [OF p] obtain pls sls mls els where
    pls: "section_lines (mesh_lines src) ''points'' = Inr pls" and
    points: "map_raising (\<lambda>ln. map_raising py_float (split_ws ln)) pls = Inr points" and
    sls: "section_lines (mesh_lines src) ''surfaceelements'' = Inr sls" and
    elements: "map_raising (\<lambda>ln. map_raising py_int (split_ws ln)) sls = Inr elements" and
    mls: "section_lines (mesh_lines src) ''materials'' = Inr mls" and
    materials: "map_raising material_of (map split_ws mls) = Inr materials" and
    els: "section_lines (mesh_lines src) ''edgesegmentsgi2'' = Inr els" and
    loop: "edge_loop (map split_ws els) [] = Inr eb"
    by blast
  note r = Inr [unfolded m]
  have c1: "\<exists>e fs'. main argv fs = (Inl e, fs')"
    if "ln \<in> set pls" "length (split_ws ln) \<noteq> 3" for ln
  proof -
    from that(1) obtain i where i: "i < length pls" "pls ! i = ln"
      by (auto simp: in_set_conv_nth)
    with map_raising_Inr [OF points]
    have l: "length points = length pls"
      and "map_raising py_float (split_ws ln) = Inr (points ! i)" by auto
    from map_raising_Inr [OF this(2)] that(2) have "length (points ! i) \<noteq> 3" by simp
    moreover from i l have "points ! i \<in> set points" by simp
    ultimately show ?thesis
      using main_fails [OF assms(1) r] by blast
  qed
  have c2: "\<exists>e fs'. main argv fs = (Inl e, fs')"
    if "ln \<in> set sls" "length (split_ws ln) < 5 \<or>
       (and_then (getitem (split_ws ln) 4) py_int = Inr 6 \<and> length (split_ws ln) < 11)" for ln
  proof -
    from that(1) obtain i where i: "i < length sls" "sls ! i = ln"
      by (auto simp: in_set_conv_nth)
    with map_raising_Inr [OF elements]
    have l: "length elements = length sls"
      and "map_raising py_int (split_ws ln) = Inr (elements ! i)" by auto
    note t = map_raising_Inr [OF this(2)]
    have "length (elements ! i) < 5 \<or> (elements ! i ! 4 = 6 \<and> length (elements ! i) < 11)"
    proof (cases "length (split_ws ln) < 5")
      case True
      with t show ?thesis by simp
    next
      case False
      with that(2) have six: "and_then (getitem (split_ws ln) 4) py_int = Inr 6"
        and short: "length (split_ws ln) < 11" by simp_all
      from False t have "py_int (split_ws ln ! 4) = Inr (elements ! i ! 4)" by simp
      moreover from False six have "py_int (split_ws ln ! 4) = Inr 6"
        by (simp add: getitem_def)
      ultimately show ?thesis using t short by simp
    qed
    moreover from i l have "elements ! i \<in> set elements" by simp
    ultimately show ?thesis
      using main_fails [OF assms(1) r] by blast
  qed
  have c3: False if "ln \<in> set mls" "length (split_ws ln) < 2" for ln
  proof -
    from that(1) obtain i where i: "i < length mls" "mls ! i = ln"
      by (auto simp: in_set_conv_nth)
    with map_raising_Inr [OF materials]
    have "material_of (split_ws ln) = Inr (materials ! i)" by auto
    from material_of_Inr [OF this] that(2) show False by simp
  qed
  have c4: False if "ln \<in> set els" "split_ws ln = [] \<or>
       (\<exists>k. and_then (getitem (split_ws ln) 0) py_int = Inr k \<and> 100 < k \<and>
            length (split_ws ln) < 4)" for ln
  proof -
    from that(1) have "split_ws ln \<in> set (map split_ws els)" by simp
    from edge_loop_lines [OF loop this] obtain k where
      k: "and_then (getitem (split_ws ln) 0) py_int = Inr k"
        "100 < k \<longrightarrow> 4 \<le> length (split_ws ln)"
      by blast
    from k(1) have "split_ws ln \<noteq> []"
      by (auto simp: and_then_Inr getitem_def split: if_splits)
    with that(2) k show False by auto
  qed
  from c1 c2 c3 c4 pls sls mls els show ?thesis
    by (intro conjI allI impI) (simp, blast)+
qed

text \<open>
  A mesh file whose second point has two coordinates: the run ends with \<open>ValueError\<close>,
  after the header and the record of the first point have been written.
\<close>

theorem wrong_token_counts_witness:
  "3 \<le> length [''in.mesh'', ''n.inp'', ''e.inp''] \<and>
   section_lines (mesh_lines (''points'' @ nl @ ''2'' @ nl @ ''0 0 0'' @ nl @ ''0 0'' @ nl @
        ''surfaceelements'' @ nl @ ''0'' @ nl @ ''materials'' @ nl @ ''0'' @ nl @
        ''edgesegmentsgi2'' @ nl @ ''0'' @ nl)) ''points'' = Inr [''0 0 0'', ''0 0''] \<and>
   length (split_ws ''0 0'') \<noteq> 3 \<and>
   (\<exists>e fs'. main [''in.mesh'', ''n.inp'', ''e.inp''] [''in.mesh'' \<mapsto> (''points'' @ nl @ ''2'' @ nl @ ''0 0 0'' @ nl @ ''0 0'' @ nl @
        ''surfaceelements'' @ nl @ ''0'' @ nl @ ''materials'' @ nl @ ''0'' @ nl @
        ''edgesegmentsgi2'' @ nl @ ''0'' @ nl)] = (Inl e, fs')) \<and>
   (case main [''in.mesh'', ''n.inp'', ''e.inp''] [''in.mesh'' \<mapsto> (''points'' @ nl @ ''2'' @ nl @ ''0 0 0'' @ nl @ ''0 0'' @ nl @
        ''surfaceelements'' @ nl @ ''0'' @ nl @ ''materials'' @ nl @ ''0'' @ nl @
        ''edgesegmentsgi2'' @ nl @ ''0'' @ nl)] of
      (r, fs') \<Rightarrow> r = Inl ValueError \<and>
        fs' ''n.inp'' = Some (''**'' @ nl @ ''** n.inp'' @ nl @
          ''** Gegenereerd door mesh2inp.py.'' @ nl @ ''**'' @ nl @ ''*NODE,NSET=Nall'' @ nl @
          ''1, 0.00, 0.00, 0.00'' @ nl) \<and>
        fs' ''e.inp'' = None)"
proof -
  have s: "section_lines (mesh_lines (''points'' @ nl @ ''2'' @ nl @ ''0 0 0'' @ nl @ ''0 0'' @ nl @
        ''surfaceelements'' @ nl @ ''0'' @ nl @ ''materials'' @ nl @ ''0'' @ nl @
        ''edgesegmentsgi2'' @ nl @ ''0'' @ nl)) ''points'' = Inr [''0 0 0'', ''0 0'']"
    by code_simp
  have t: "length (split_ws ''0 0'') \<noteq> 3"
    by code_simp
  have f: "[''in.mesh'' \<mapsto> (''points'' @ nl @ ''2'' @ nl @ ''0 0 0'' @ nl @ ''0 0'' @ nl @
        ''surfaceelements'' @ nl @ ''0'' @ nl @ ''materials'' @ nl @ ''0'' @ nl @
        ''edgesegmentsgi2'' @ nl @ ''0'' @ nl)] ([''in.mesh'', ''n.inp'', ''e.inp''] ! 0) = Some (''points'' @ nl @ ''2'' @ nl @ ''0 0 0'' @ nl @ ''0 0'' @ nl @
        ''surfaceelements'' @ nl @ ''0'' @ nl @ ''materials'' @ nl @ ''0'' @ nl @
        ''edgesegmentsgi2'' @ nl @ ''0'' @ nl)"
    by simp
  have l: "3 \<le> length [''in.mesh'', ''n.inp'', ''e.inp'']"
    by simp
  from conjunct1 [OF wrong_token_counts [where argv = "[''in.mesh'', ''n.inp'', ''e.inp'']"
        and fs = "[''in.mesh'' \<mapsto> (''points'' @ nl @ ''2'' @ nl @ ''0 0 0'' @ nl @ ''0 0'' @ nl @
        ''surfaceelements'' @ nl @ ''0'' @ nl @ ''materials'' @ nl @ ''0'' @ nl @
        ''edgesegmentsgi2'' @ nl @ ''0'' @ nl)]"
        and src = "(''points'' @ nl @ ''2'' @ nl @ ''0 0 0'' @ nl @ ''0 0'' @ nl @
        ''surfaceelements'' @ nl @ ''0'' @ nl @ ''materials'' @ nl @ ''0'' @ nl @
        ''edgesegmentsgi2'' @ nl @ ''0'' @ nl)", OF l f]] s t
  have a: "\<exists>e fs'. main [''in.mesh'', ''n.inp'', ''e.inp''] [''in.mesh'' \<mapsto> (''points'' @ nl @ ''2'' @ nl @ ''0 0 0'' @ nl @ ''0 0'' @ nl @
        ''surfaceelements'' @ nl @ ''0'' @ nl @ ''materials'' @ nl @ ''0'' @ nl @
        ''edgesegmentsgi2'' @ nl @ ''0'' @ nl)] = (Inl e, fs')"
    by simp
  have b: "case main [''in.mesh'', ''n.inp'', ''e.inp''] [''in.mesh'' \<mapsto> (''points'' @ nl @ ''2'' @ nl @ ''0 0 0'' @ nl @ ''0 0'' @ nl @
        ''surfaceelements'' @ nl @ ''0'' @ nl @ ''materials'' @ nl @ ''0'' @ nl @
        ''edgesegmentsgi2'' @ nl @ ''0'' @ nl)] of
      (r, fs') \<Rightarrow> r = Inl ValueError \<and>
        fs' ''n.inp'' = Some (''**'' @ nl @ ''** n.inp'' @ nl @
          ''** Gegenereerd door mesh2inp.py.'' @ nl @ ''**'' @ nl @ ''*NODE,NSET=Nall'' @ nl @
          ''1, 0.00, 0.00, 0.00'' @ nl) \<and>
        fs' ''e.inp'' = None"
    by code_simp
  from l s t a b show ?thesis by blast
qed

text \<open>
  Claim C7 as stated fails. The element line of this file gives node count 3 and only
  two node ids; the run ends without an exception, and both files are written, the node
  set of the material with the two ids.
\<close>

theorem wrong_token_counts_counterexample:
  "case main [''in.mesh'', ''n.inp'', ''e.inp''] [''in.mesh'' \<mapsto> (''points'' @ nl @ ''2'' @ nl @ ''0 0 0'' @ nl @ ''0 0 0'' @ nl @
        ''surfaceelements'' @ nl @ ''1'' @ nl @ ''1 1 0 0 3 1 2'' @ nl @
        ''materials'' @ nl @ ''1'' @ nl @ ''1 steel'' @ nl @
        ''edgesegmentsgi2'' @ nl @ ''0'' @ nl)] of
      (r, fs') \<Rightarrow> r = Inr () \<and>
        fs' ''n.inp'' = Some (''**'' @ nl @ ''** n.inp'' @ nl @
          ''** Gegenereerd door mesh2inp.py.'' @ nl @ ''**'' @ nl @ ''*NODE,NSET=Nall'' @ nl @
          ''1, 0.00, 0.00, 0.00'' @ nl @ ''2, 0.00, 0.00, 0.00'' @ nl @
          ''*NSET,NSET=Nsteel'' @ nl @ ''  1, 2'' @ nl) \<and>
        fs' ''e.inp'' = Some (''**'' @ nl @ ''** e.inp'' @ nl @
          ''** Gegenereerd door mesh2inp.py.'' @ nl @ ''**'' @ nl @
          ''*ELEMENT, TYPE=S6, ELSET=Eall'' @ nl @
          ''*ELSET,ELSET=Esteel'' @ nl @ ''1,'' @ nl)"
  by code_simp

end
